theory Spec2Isabelle
  imports Main "HOL-Library.Word"
begin

unbundle bit_operations_syntax

section \<open>Basic types\<close>

text \<open>
  A \<^verbatim>\<open>std::string\<close> holding binary data is a list of characters (bytes).  A
  \<^verbatim>\<open>uint256\<close> is a 256-bit word; its binary string has \<^verbatim>\<open>uint256::NUM_BYTES\<close>
  bytes.
\<close>

type_synonym bytes = string
type_synonym uint256 = "256 word"
type_synonym uint64 = "64 word"
type_synonym uint32 = "32 word"

definition NUM_BYTES :: nat where
  "NUM_BYTES = 32"

text \<open>
  A failed \<^verbatim>\<open>CHECK\<close> and a \<^verbatim>\<open>LOG (FATAL)\<close> abort the process.  A function that can
  reach one returns \<open>fatal + 'a\<close>, with \<open>Inl\<close> for the abort.  Reading a repeated
  protocol-buffer field past its size is an abort as well.
\<close>

datatype fatal = CHECK_failed | LOG_FATAL | IndexOutOfRange

definition bindF :: "fatal + 'a \<Rightarrow> ('a \<Rightarrow> fatal + 'b) \<Rightarrow> fatal + 'b" where
  "bindF m f = (case m of Inl e \<Rightarrow> Inl e | Inr x \<Rightarrow> f x)"

definition CHECK :: "bool \<Rightarrow> fatal + 'a \<Rightarrow> fatal + 'a" where
  "CHECK c k = (if c then k else Inl CHECK_failed)"

definition at :: "'a list \<Rightarrow> nat \<Rightarrow> (fatal + 'a)" where
  "at xs i = (if i < length xs then Inr (xs ! i) else Inl IndexOutOfRange)"

section \<open>Protocol buffer messages\<close>

text \<open>
  The generated message classes are not part of the sources; the fields below are the
  ones the code reads and writes through their accessors.  An optional field is an
  \<open>option\<close> (\<^verbatim>\<open>has_x ()\<close> is \<open>x \<noteq> None\<close>), and the accessor of an unset field yields the
  default value.  Every message carries the unknown fields that parsing found (field number
  and raw payload).
\<close>

type_synonym unknown_fields = "(nat \<times> bytes) list"

record Participant =
  name :: string
  address :: string
  participant_unknown :: unknown_fields

record ChannelMetadata =
  participants :: "Participant list"
  reinit :: bytes
  metadata_unknown :: unknown_fields

record KnownShips =
  opt_guessed :: "uint64 option"
  opt_hits :: "uint64 option"
  known_unknown :: unknown_fields

record BoardState =
  opt_turn :: "uint32 option"
  position_hashes :: "bytes list"
  opt_seed_hash_0 :: "bytes option"
  opt_seed_1 :: "bytes option"
  known_ships :: "KnownShips list"
  positions :: "uint64 list"
  opt_current_shot :: "uint32 option"
  opt_winner :: "uint32 option"
  state_unknown :: unknown_fields

definition guessed :: "KnownShips \<Rightarrow> uint64" where
  "guessed k = (case opt_guessed k of None \<Rightarrow> 0 | Some g \<Rightarrow> g)"

definition hits :: "KnownShips \<Rightarrow> uint64" where
  "hits k = (case opt_hits k of None \<Rightarrow> 0 | Some h \<Rightarrow> h)"

definition turn :: "BoardState \<Rightarrow> uint32" where
  "turn pb = (case opt_turn pb of None \<Rightarrow> 0 | Some t \<Rightarrow> t)"

definition has_turn :: "BoardState \<Rightarrow> bool" where
  "has_turn pb = (opt_turn pb \<noteq> None)"

definition has_winner :: "BoardState \<Rightarrow> bool" where
  "has_winner pb = (opt_winner pb \<noteq> None)"

definition has_current_shot :: "BoardState \<Rightarrow> bool" where
  "has_current_shot pb = (opt_current_shot pb \<noteq> None)"

definition current_shot :: "BoardState \<Rightarrow> uint32" where
  "current_shot pb = (case opt_current_shot pb of None \<Rightarrow> 0 | Some c \<Rightarrow> c)"

definition seed_hash_0 :: "BoardState \<Rightarrow> bytes" where
  "seed_hash_0 pb = (case opt_seed_hash_0 pb of None \<Rightarrow> [] | Some h \<Rightarrow> h)"

definition seed_1 :: "BoardState \<Rightarrow> bytes" where
  "seed_1 pb = (case opt_seed_1 pb of None \<Rightarrow> [] | Some s \<Rightarrow> s)"

record PositionCommitmentMove =
  opt_position_hash :: "bytes option"
  opt_seed_hash :: "bytes option"
  opt_commit_seed :: "bytes option"
  commitment_unknown :: unknown_fields

record SeedRevealMove =
  opt_reveal_seed :: "bytes option"
  seed_reveal_unknown :: unknown_fields

record ShotMove =
  opt_location :: "uint32 option"
  shot_unknown :: unknown_fields

datatype Reply = INVALID | HIT | MISS

record ReplyMove =
  opt_reply :: "Reply option"
  reply_unknown :: unknown_fields

record PositionRevealMove =
  opt_position :: "uint64 option"
  opt_salt :: "bytes option"
  position_reveal_unknown :: unknown_fields

datatype MoveCase =
    MOVE_NOT_SET
  | kPositionCommitment PositionCommitmentMove
  | kSeedReveal SeedRevealMove
  | kShot ShotMove
  | kReply ReplyMove
  | kPositionReveal PositionRevealMove

record BoardMove =
  move_case :: MoveCase
  move_unknown :: unknown_fields

definition bytes_or_empty :: "bytes option \<Rightarrow> bytes" where
  "bytes_or_empty b = (case b of None \<Rightarrow> [] | Some x \<Rightarrow> x)"

section \<open>Collaborators of the ships board that are not part of the sources\<close>

text \<open>
  The board code calls into code that the sources only declare: the SHA-256 hasher
  (\<^verbatim>\<open>hash.hpp\<close>; the digest is taken here as its 32-byte binary string), the random
  generator seeded with a digest, and the ship placement rules of \<^verbatim>\<open>grid.hpp\<close>.  They are
  parameters of the model; every theorem below holds for all of them.

  \<^verbatim>\<open>SHA256::Hash\<close> is the static method that hashes a string.  A hasher and a random
  generator are objects with a state of their own (for the hasher the class \<^verbatim>\<open>State\<close>, which
  \<^verbatim>\<open>hash.hpp\<close> declares and does not expose): \<open>'h\<close> is the state of a hasher and \<open>'r\<close> the
  state of a generator.  \<^verbatim>\<open>SHA256_new\<close> and
  \<^verbatim>\<open>Random_new\<close> are the objects that the default constructors produce, \<^verbatim>\<open>SHA256_feed\<close> is
  \<^verbatim>\<open>operator<<\<close>, and \<^verbatim>\<open>Random_NextBool\<close> is \<^verbatim>\<open>Next<bool>\<close>, which returns the bit and leaves
  the generator in a new state.
\<close>

record ('h, 'r) externals =
  SHA256_Hash :: "bytes \<Rightarrow> bytes"
  SHA256_new :: 'h
  SHA256_feed :: "bytes \<Rightarrow> 'h \<Rightarrow> 'h"
  SHA256_Finalise :: "'h \<Rightarrow> bytes"
  Random_new :: 'r
  Random_Seed :: "bytes \<Rightarrow> 'r \<Rightarrow> 'r"
  Random_NextBool :: "'r \<Rightarrow> bool \<times> 'r"
  VerifyPositionOfShips :: "uint64 \<Rightarrow> bool"
  VerifyPositionForAnswers :: "uint64 \<Rightarrow> uint64 \<Rightarrow> uint64 \<Rightarrow> bool"
  TotalShipCells :: int

text \<open>
  Modelled from the spec: \<^verbatim>\<open>Coord\<close> and the bit operations of \<^verbatim>\<open>Grid\<close> (\<^verbatim>\<open>coord.hpp\<close> and
  \<^verbatim>\<open>grid.cpp\<close> are not among the sources).  A coordinate is an index into the
  \<^verbatim>\<open>Coord::CELLS\<close> = 64 cells that the bit vector of \<^verbatim>\<open>grid.hpp\<close> holds; \<^verbatim>\<open>Get\<close> retrieves the
  bit of a coordinate, \<^verbatim>\<open>Set\<close> sets it to true, \<^verbatim>\<open>CountOnes\<close> counts the bits that are
  true, and \<^verbatim>\<open>Blob\<close> is the little-endian encoding of the bits as eight bytes.
\<close>

definition CELLS :: nat where
  "CELLS = 64"

definition IsOnBoard :: "uint32 \<Rightarrow> bool" where
  "IsOnBoard c = (0 \<le> sint c \<and> sint c < int CELLS)"

definition GetIndex :: "uint32 \<Rightarrow> nat" where
  "GetIndex c = unat c"

definition Grid_Get :: "uint64 \<Rightarrow> uint32 \<Rightarrow> bool" where
  "Grid_Get g c = bit g (GetIndex c)"

definition Grid_Set :: "uint64 \<Rightarrow> uint32 \<Rightarrow> uint64" where
  "Grid_Set g c = g OR push_bit (GetIndex c) 1"

definition CountOnes :: "uint64 \<Rightarrow> nat" where
  "CountOnes g = length (filter (bit g) [0..<CELLS])"

definition Blob :: "uint64 \<Rightarrow> bytes" where
  "Blob g =
     [char_of (unat g), char_of (unat (drop_bit 8 g)), char_of (unat (drop_bit 16 g)),
      char_of (unat (drop_bit 24 g)), char_of (unat (drop_bit 32 g)),
      char_of (unat (drop_bit 40 g)), char_of (unat (drop_bit 48 g)),
      char_of (unat (drop_bit 56 g))]"

section \<open>The ships board state (board.cpp)\<close>

record ShipsBoardState =
  channelId :: uint256
  GetMetadata :: ChannelMetadata
  GetState :: BoardState

datatype Phase =
    PHASE_INVALID
  | FIRST_COMMITMENT
  | SECOND_COMMITMENT
  | FIRST_REVEAL_SEED
  | SHOOT
  | ANSWER
  | SECOND_REVEAL_POSITION
  | FINISHED

definition participants_size :: "ChannelMetadata \<Rightarrow> nat" where
  "participants_size m = length (participants m)"

definition CheckHashValue :: "bytes \<Rightarrow> bytes \<Rightarrow> bool" where
  "CheckHashValue actual expected =
     (if length expected \<noteq> NUM_BYTES then False else actual = expected)"

definition GetPhase :: "BoardState \<Rightarrow> Phase" where
  "GetPhase pb =
     (if has_winner pb then FINISHED
      else if length (position_hashes pb) = 0 then FIRST_COMMITMENT
      else if length (position_hashes pb) = 1 then SECOND_COMMITMENT
      else if length (position_hashes pb) \<noteq> 2 then PHASE_INVALID
      else if length (known_ships pb) = 0 then FIRST_REVEAL_SEED
      else if length (known_ships pb) \<noteq> 2 then PHASE_INVALID
      else if length (positions pb) = 2 then SECOND_REVEAL_POSITION
      else if length (positions pb) \<noteq> 0 then PHASE_INVALID
      else if has_current_shot pb then ANSWER
      else SHOOT)"

text \<open>
  \<^verbatim>\<open>const int turn = pb.turn ()\<close> reads the unsigned field as a signed integer.
\<close>

definition IsValid :: "ShipsBoardState \<Rightarrow> fatal + bool" where
  "IsValid s =
     (if participants_size (GetMetadata s) = 1 then Inr True
      else CHECK (participants_size (GetMetadata s) = 2)
       (let phase = GetPhase (GetState s); pb = GetState s in
        if phase = PHASE_INVALID then Inr False
        else if \<not> has_turn pb \<or> phase = FINISHED
          then Inr (\<not> has_turn pb \<and> phase = FINISHED)
        else let t = sint (turn pb) in
          if t < 0 \<or> t > 1 then Inr False
          else (case phase of
              FIRST_COMMITMENT \<Rightarrow> Inr (\<not> t \<noteq> 0)
            | FIRST_REVEAL_SEED \<Rightarrow> Inr (\<not> t \<noteq> 0)
            | SECOND_COMMITMENT \<Rightarrow> Inr (\<not> t \<noteq> 1)
            | SHOOT \<Rightarrow> Inr True
            | ANSWER \<Rightarrow> Inr True
            | SECOND_REVEAL_POSITION \<Rightarrow>
                CHECK (length (positions pb) = 2)
                 (let otherTurn = 1 - t in
                  bindF (at (positions pb) (nat t)) (\<lambda>mine.
                  bindF (at (positions pb) (nat otherTurn)) (\<lambda>theirs.
                  Inr (\<not> (mine \<noteq> 0 \<or> theirs = 0)))))
            | _ \<Rightarrow> Inl LOG_FATAL)))"

text \<open>\<^verbatim>\<open>ParsedBoardState::NO_TURN\<close> is the result \<open>None\<close>.\<close>

abbreviation NO_TURN :: "int option" where
  "NO_TURN \<equiv> None"

definition WhoseTurn :: "ShipsBoardState \<Rightarrow> fatal + int option" where
  "WhoseTurn s =
     (if participants_size (GetMetadata s) = 1 then Inr NO_TURN
      else if \<not> has_turn (GetState s) then Inr NO_TURN
      else let res = sint (turn (GetState s)) in
        CHECK (res \<ge> 0) (CHECK (res \<le> 1) (Inr (Some res))))"

text \<open>
  \<^verbatim>\<open>shots\<close> and the result are \<^verbatim>\<open>unsigned\<close>, so the arithmetic is that of 32-bit words.
  The loop over the revealed positions reads each 64-bit position into a \<^verbatim>\<open>const int\<close>,
  which keeps its low 32 bits.
\<close>

definition count_shots :: "KnownShips list \<Rightarrow> uint32" where
  "count_shots ks = foldl (\<lambda>shots known. shots + of_nat (CountOnes (guessed known))) 0 ks"

definition count_reveals :: "uint64 list \<Rightarrow> uint32 \<Rightarrow> uint32" where
  "count_reveals ps cnt0 = foldl (\<lambda>cnt p. if (ucast p :: uint32) \<noteq> 0 then cnt + 1 else cnt) cnt0 ps"

definition TurnCount :: "ShipsBoardState \<Rightarrow> fatal + uint32" where
  "TurnCount s =
     (if participants_size (GetMetadata s) = 1 then Inr 0
      else let pb = GetState s; shots = count_shots (known_ships pb) in
        case GetPhase pb of
          FIRST_COMMITMENT \<Rightarrow> Inr 1
        | SECOND_COMMITMENT \<Rightarrow> Inr 2
        | FIRST_REVEAL_SEED \<Rightarrow> Inr 3
        | SHOOT \<Rightarrow> Inr (4 + 2 * shots)
        | ANSWER \<Rightarrow> Inr (4 + 2 * shots - 1)
        | PHASE_INVALID \<Rightarrow> Inl LOG_FATAL
        | _ \<Rightarrow>
            (let cnt = 4 + 2 * shots;
                 cnt1 = (if has_current_shot pb then cnt - 1 else cnt)
             in Inr (count_reveals (positions pb) cnt1)))"

text \<open>
  The move handlers return \<open>Inr None\<close> for \<^verbatim>\<open>false\<close> (the move is invalid) and
  \<open>Inr (Some newState)\<close> for \<^verbatim>\<open>true\<close>.
\<close>

definition ApplyPositionCommitment ::
  "PositionCommitmentMove \<Rightarrow> Phase \<Rightarrow> BoardState \<Rightarrow> fatal + BoardState option" where
  "ApplyPositionCommitment mv phase newState =
     (if length (bytes_or_empty (opt_position_hash mv)) \<noteq> NUM_BYTES then Inr None
      else case phase of
        FIRST_COMMITMENT \<Rightarrow>
          if length (bytes_or_empty (opt_seed_hash mv)) \<noteq> NUM_BYTES then Inr None
          else if opt_commit_seed mv \<noteq> None then Inr None
          else
            let n1 = newState\<lparr>opt_turn := Some 1\<rparr>;
                n2 = n1\<lparr>position_hashes :=
                       position_hashes n1 @ [bytes_or_empty (opt_position_hash mv)]\<rparr>
            in CHECK (length (position_hashes n2) = 1)
                 (Inr (Some (n2\<lparr>opt_seed_hash_0 := Some (bytes_or_empty (opt_seed_hash mv))\<rparr>)))
      | SECOND_COMMITMENT \<Rightarrow>
          if opt_seed_hash mv \<noteq> None then Inr None
          else if length (bytes_or_empty (opt_commit_seed mv)) > NUM_BYTES then Inr None
          else
            let n1 = newState\<lparr>opt_turn := Some 0\<rparr>;
                n2 = n1\<lparr>position_hashes :=
                       position_hashes n1 @ [bytes_or_empty (opt_position_hash mv)]\<rparr>
            in CHECK (length (position_hashes n2) = 2)
                 (Inr (Some (n2\<lparr>opt_seed_1 := Some (bytes_or_empty (opt_commit_seed mv))\<rparr>)))
      | _ \<Rightarrow> Inr None)"

definition fresh_known_ships :: KnownShips where
  "fresh_known_ships = \<lparr>opt_guessed = Some 0, opt_hits = Some 0, known_unknown = []\<rparr>"

text \<open>
  A new hasher is fed the revealed seed and then the stored second seed; a new random
  generator is seeded with the digest that the hasher finalises to and asked for one bit.
\<close>

definition ApplySeedReveal ::
  "('h, 'r) externals \<Rightarrow> SeedRevealMove \<Rightarrow> Phase \<Rightarrow> BoardState \<Rightarrow> fatal + BoardState option" where
  "ApplySeedReveal ext mv phase newState =
     (let seed = bytes_or_empty (opt_reveal_seed mv) in
      if phase \<noteq> FIRST_REVEAL_SEED then Inr None
      else if length seed > NUM_BYTES then Inr None
      else if \<not> CheckHashValue (SHA256_Hash ext seed) (seed_hash_0 newState) then Inr None
      else
        let hasher = SHA256_feed ext (seed_1 newState) (SHA256_feed ext seed (SHA256_new ext));
            rnd = Random_Seed ext (SHA256_Finalise ext hasher) (Random_new ext);
            n1 = newState\<lparr>opt_turn := Some (if fst (Random_NextBool ext rnd) then 1 else 0)\<rparr>;
            n2 = n1\<lparr>opt_seed_hash_0 := None\<rparr>;
            n3 = n2\<lparr>opt_seed_1 := None\<rparr>
        in Inr (Some (n3\<lparr>known_ships :=
                        known_ships n3 @ [fresh_known_ships, fresh_known_ships]\<rparr>)))"

definition ApplyShot :: "ShotMove \<Rightarrow> Phase \<Rightarrow> BoardState \<Rightarrow> fatal + BoardState option" where
  "ApplyShot mv phase newState =
     (if phase \<noteq> SHOOT then Inr None
      else case opt_location mv of
        None \<Rightarrow> Inr None
      | Some target \<Rightarrow>
          if \<not> IsOnBoard target then Inr None
          else
            let otherPlayer = sint (1 - turn newState) in
            CHECK (otherPlayer \<ge> 0) (CHECK (otherPlayer \<le> 1)
             (bindF (at (known_ships newState) (nat otherPlayer)) (\<lambda>known.
                if Grid_Get (guessed known) target then Inr None
                else
                  let g = Grid_Set (guessed known) target;
                      n1 = newState\<lparr>opt_turn := Some (of_int otherPlayer)\<rparr>;
                      n2 = n1\<lparr>opt_current_shot := Some (of_nat (GetIndex target))\<rparr>
                  in Inr (Some (n2\<lparr>known_ships :=
                       (known_ships n2)[nat otherPlayer := known\<lparr>opt_guessed := Some g\<rparr>]\<rparr>))))))"

definition ApplyReply :: "ReplyMove \<Rightarrow> Phase \<Rightarrow> BoardState \<Rightarrow> fatal + BoardState option" where
  "ApplyReply mv phase newState =
     (if phase \<noteq> ANSWER then Inr None
      else case opt_reply mv of
        None \<Rightarrow> Inr None
      | Some reply \<Rightarrow>
          CHECK (has_current_shot newState)
           (let target = current_shot newState in
            if \<not> IsOnBoard target then Inr None
            else
              let n1 = newState\<lparr>opt_current_shot := None\<rparr> in
              case reply of
                HIT \<Rightarrow>
                  bindF (at (known_ships n1) (unat (turn n1))) (\<lambda>known.
                    if Grid_Get (hits known) target then Inr None
                    else
                      let h = Grid_Set (hits known) target;
                          n2 = n1\<lparr>known_ships :=
                                 (known_ships n1)[unat (turn n1) := known\<lparr>opt_hits := Some h\<rparr>]\<rparr>
                      in Inr (Some (n2\<lparr>opt_turn := Some (1 - turn n2)\<rparr>)))
              | MISS \<Rightarrow> Inr (Some n1)
              | _ \<Rightarrow> Inr None))"

text \<open>
  The position reveal, in the order of the source: the commitment is checked, the position
  is recorded and its hash cleared, a winner is determined where there is one, and the turn
  is cleared or passed on.
\<close>

definition reveal_verify ::
  "('h, 'r) externals \<Rightarrow> uint64 \<Rightarrow> int \<Rightarrow> BoardState \<Rightarrow> fatal + BoardState option" where
  "reveal_verify ext g otherPlayer newState =
     (if \<not> VerifyPositionOfShips ext g
        then Inr (Some (newState\<lparr>opt_winner := Some (of_int otherPlayer)\<rparr>))
      else
        bindF (at (known_ships newState) (unat (turn newState))) (\<lambda>known.
          if (hits known AND NOT (guessed known)) \<noteq> 0 then Inr None
          else if \<not> VerifyPositionForAnswers ext g (guessed known) (hits known)
            then Inr (Some (newState\<lparr>opt_winner := Some (of_int otherPlayer)\<rparr>))
          else Inr (Some newState)))"

definition reveal_all_hit ::
  "('h, 'r) externals \<Rightarrow> Phase \<Rightarrow> int \<Rightarrow> BoardState \<Rightarrow> fatal + BoardState" where
  "reveal_all_hit ext phase otherPlayer newState =
     (if \<not> has_winner newState \<and> phase \<noteq> SECOND_REVEAL_POSITION
        then bindF (at (known_ships newState) (nat otherPlayer)) (\<lambda>known.
          let ones = int (CountOnes (hits known)) in
          if ones \<ge> TotalShipCells ext
            then Inr (newState\<lparr>opt_winner := Some (turn newState)\<rparr>)
          else Inr newState)
      else Inr newState)"

definition reveal_second_wins :: "Phase \<Rightarrow> BoardState \<Rightarrow> BoardState" where
  "reveal_second_wins phase newState =
     (if \<not> has_winner newState \<and> phase = SECOND_REVEAL_POSITION
        then newState\<lparr>opt_winner := Some (turn newState)\<rparr>
      else newState)"

definition reveal_finish :: "Phase \<Rightarrow> int \<Rightarrow> BoardState \<Rightarrow> fatal + BoardState option" where
  "reveal_finish phase otherPlayer newState =
     (if has_winner newState
        then Inr (Some (newState\<lparr>opt_turn := None,
                          position_hashes := map (\<lambda>ph. []) (position_hashes newState)\<rparr>))
      else CHECK (phase \<noteq> SECOND_REVEAL_POSITION)
             (Inr (Some (newState\<lparr>opt_turn := Some (of_int otherPlayer)\<rparr>))))"

definition reveal_record :: "uint64 \<Rightarrow> BoardState \<Rightarrow> fatal + BoardState" where
  "reveal_record g newState =
     (let n1 = (if length (positions newState) = 0
                then newState\<lparr>positions := positions newState @ [0, 0]\<rparr>
                else newState)
      in
      CHECK (length (positions n1) = 2)
       (bindF (at (positions n1) (unat (turn n1))) (\<lambda>p.
        CHECK (p = 0)
         (let n2 = n1\<lparr>positions := (positions n1)[unat (turn n1) := g]\<rparr>
          in Inr (n2\<lparr>position_hashes := (position_hashes n2)[unat (turn n2) := []]\<rparr>)))))"

definition reveal_outcome ::
  "('h, 'r) externals \<Rightarrow> Phase \<Rightarrow> uint64 \<Rightarrow> BoardState \<Rightarrow> fatal + BoardState option" where
  "reveal_outcome ext phase g newState =
     (let otherPlayer = sint (1 - turn newState) in
      CHECK (otherPlayer \<ge> 0) (CHECK (otherPlayer \<le> 1)
       (bindF (reveal_verify ext g otherPlayer newState) (\<lambda>r.
          case r of
            None \<Rightarrow> Inr None
          | Some n4 \<Rightarrow>
              bindF (reveal_all_hit ext phase otherPlayer n4) (\<lambda>n5.
                reveal_finish phase otherPlayer (reveal_second_wins phase n5))))))"

definition ApplyPositionReveal ::
  "('h, 'r) externals \<Rightarrow> PositionRevealMove \<Rightarrow> Phase \<Rightarrow> BoardState \<Rightarrow> fatal + BoardState option" where
  "ApplyPositionReveal ext mv phase newState =
     (if phase \<noteq> SHOOT \<and> phase \<noteq> ANSWER \<and> phase \<noteq> SECOND_REVEAL_POSITION then Inr None
      else case opt_position mv of
        None \<Rightarrow> Inr None
      | Some g \<Rightarrow>
          if length (bytes_or_empty (opt_salt mv)) > NUM_BYTES then Inr None
          else
            bindF (at (position_hashes newState) (unat (turn newState))) (\<lambda>committed.
            if \<not> CheckHashValue (SHA256_Hash ext (Blob g @ bytes_or_empty (opt_salt mv)))
                   committed
              then Inr None
            else bindF (reveal_record g newState) (reveal_outcome ext phase g)))"

definition ApplyMoveProto ::
  "('h, 'r) externals \<Rightarrow> ShipsBoardState \<Rightarrow> BoardMove \<Rightarrow> fatal + BoardState option" where
  "ApplyMoveProto ext s mv =
     (let newState = GetState s in
      bindF (WhoseTurn s) (\<lambda>t.
      CHECK (t \<noteq> NO_TURN)
       (let phase = GetPhase (GetState s) in
        case move_case mv of
          kPositionCommitment m \<Rightarrow> ApplyPositionCommitment m phase newState
        | kSeedReveal m \<Rightarrow> ApplySeedReveal ext m phase newState
        | kShot m \<Rightarrow> ApplyShot m phase newState
        | kReply m \<Rightarrow> ApplyReply m phase newState
        | kPositionReveal m \<Rightarrow> ApplyPositionReveal ext m phase newState
        | MOVE_NOT_SET \<Rightarrow> Inr None)))"

definition InitialBoardState :: BoardState where
  "InitialBoardState =
     \<lparr>opt_turn = Some 0, position_hashes = [], opt_seed_hash_0 = None, opt_seed_1 = None,
      known_ships = [], positions = [], opt_current_shot = None, opt_winner = None,
      state_unknown = []\<rparr>"

section \<open>Single-participant channels\<close>

text \<open>
  C4.  A ships board state that belongs to channel metadata with exactly one participant is
  valid whatever the state holds (\<^verbatim>\<open>IsValid\<close> returns true without aborting), and nobody
  is to move in it (\<^verbatim>\<open>WhoseTurn\<close> returns \<^verbatim>\<open>NO_TURN\<close>).
\<close>

theorem single_participant_valid_no_turn:
  assumes "participants_size (GetMetadata s) = 1"
  shows "IsValid s = Inr True \<and> WhoseTurn s = Inr NO_TURN"
  using assms by (simp add: IsValid_def WhoseTurn_def)

text \<open>
  The state of the test \<^verbatim>\<open>SinglePlayerStateTests.IsValid\<close>: \<^verbatim>\<open>turn: 100\<close> in a channel with
  one participant.
\<close>

definition single_participant_example :: ShipsBoardState where
  "single_participant_example =
     \<lparr>channelId = 7,
      GetMetadata = \<lparr>participants = [\<lparr>name = ''alice'', address = ''addr 0'',
                       participant_unknown = []\<rparr>], reinit = [], metadata_unknown = []\<rparr>,
      GetState = InitialBoardState\<lparr>opt_turn := Some 100\<rparr>\<rparr>"

theorem single_participant_valid_no_turn_witness:
  "participants_size (GetMetadata single_participant_example) = 1
   \<and> IsValid single_participant_example = Inr True
   \<and> WhoseTurn single_participant_example = Inr NO_TURN"
proof -
  have one: "participants_size (GetMetadata single_participant_example) = 1"
    by (simp add: single_participant_example_def participants_size_def)
  show ?thesis
    using one single_participant_valid_no_turn [OF one] by simp
qed

section \<open>The turn count along accepted moves\<close>

subsection \<open>Counting bits of a grid\<close>

lemma CountOnes_le: "CountOnes g \<le> 64"
proof -
  have "length (filter (bit g) [0..<CELLS]) \<le> length [0..<CELLS]" by (rule length_filter_le)
  then show ?thesis by (simp add: CountOnes_def CELLS_def)
qed

lemma CountOnes_card: "CountOnes g = card {i. i < 64 \<and> bit g i}"
proof -
  have "CountOnes g = card ({x. bit g x} \<inter> set [0..<64])"
    unfolding CountOnes_def CELLS_def by (rule distinct_length_filter) simp
  also have "{x. bit g x} \<inter> set [0..<64] = {i. i < 64 \<and> bit g i}" by auto
  finally show ?thesis .
qed

lemma CountOnes_Grid_Set:
  assumes "IsOnBoard c" and "\<not> Grid_Get g c"
  shows "CountOnes (Grid_Set g c) = Suc (CountOnes g)"
proof -
  have s: "0 \<le> sint c" "sint c < 64" using assms(1) by (simp_all add: IsOnBoard_def CELLS_def)
  have "uint c = take_bit 32 (sint c)" using uint_sint [of c] by simp
  also have "\<dots> = sint c" using s by (simp add: take_bit_int_eq_self)
  finally have "uint c = sint c" .
  then have k: "GetIndex c < 64" using s by (simp add: GetIndex_def unat_eq_nat_uint)
  have nb: "\<not> bit g (GetIndex c)" using assms(2) by (simp add: Grid_Get_def)
  have "{i. i < 64 \<and> bit (Grid_Set g c) i} = insert (GetIndex c) {i. i < 64 \<and> bit g i}"
    using k by (auto simp: Grid_Set_def bit_or_iff bit_exp_iff possible_bit_word)
  moreover have "GetIndex c \<notin> {i. i < 64 \<and> bit g i}" using nb by simp
  moreover have "finite {i. i < 64 \<and> bit g i}" by simp
  ultimately show ?thesis by (simp add: CountOnes_card)
qed

definition shots_nat :: "KnownShips list \<Rightarrow> nat" where
  "shots_nat ks = sum_list (map (\<lambda>k. CountOnes (guessed k)) ks)"

definition reveals_nat :: "uint64 list \<Rightarrow> nat" where
  "reveals_nat ps = length (filter (\<lambda>p. (ucast p :: uint32) \<noteq> 0) ps)"

lemma foldl_shots: "foldl (\<lambda>shots known. shots + of_nat (CountOnes (guessed known))) a ks
   = a + (of_nat (shots_nat ks) :: uint32)"
  by (induction ks arbitrary: a) (simp_all add: shots_nat_def)

lemma count_shots_nat: "count_shots ks = of_nat (shots_nat ks)"
  by (simp add: count_shots_def foldl_shots)

lemma count_reveals_nat: "count_reveals ps c = c + of_nat (reveals_nat ps)"
  unfolding count_reveals_def reveals_nat_def
  by (induction ps arbitrary: c) simp_all

lemma shots_nat_le: "shots_nat ks \<le> 64 * length ks"
proof (induction ks)
  case Nil show ?case by (simp add: shots_nat_def)
next
  case (Cons k ks)
  have "CountOnes (guessed k) \<le> 64" by (rule CountOnes_le)
  with Cons show ?case by (simp add: shots_nat_def)
qed

lemma reveals_nat_le: "reveals_nat ps \<le> length ps"
  by (simp add: reveals_nat_def)

definition turn_count_nat :: "BoardState \<Rightarrow> nat" where
  "turn_count_nat pb =
     (case GetPhase pb of
        FIRST_COMMITMENT \<Rightarrow> 1
      | SECOND_COMMITMENT \<Rightarrow> 2
      | FIRST_REVEAL_SEED \<Rightarrow> 3
      | SHOOT \<Rightarrow> 4 + 2 * shots_nat (known_ships pb)
      | ANSWER \<Rightarrow> 3 + 2 * shots_nat (known_ships pb)
      | PHASE_INVALID \<Rightarrow> 0
      | _ \<Rightarrow> (if has_current_shot pb then 3 else 4) + 2 * shots_nat (known_ships pb)
               + reveals_nat (positions pb))"

lemma TurnCount_nat:
  assumes "participants_size (GetMetadata s) \<noteq> 1" and "GetPhase (GetState s) \<noteq> PHASE_INVALID"
  shows "TurnCount s = Inr (of_nat (turn_count_nat (GetState s)))"
  using assms
  by (cases "GetPhase (GetState s)")
     (simp_all add: TurnCount_def turn_count_nat_def count_shots_nat count_reveals_nat Let_def)

lemma turn_count_nat_le:
  "turn_count_nat pb \<le> 4 + 128 * length (known_ships pb) + length (positions pb)"
proof -
  have a: "shots_nat (known_ships pb) \<le> 64 * length (known_ships pb)" by (rule shots_nat_le)
  have b: "reveals_nat (positions pb) \<le> length (positions pb)" by (rule reveals_nat_le)
  show ?thesis using a b
    by (cases "GetPhase pb") (simp_all add: turn_count_nat_def)
qed

lemma word_of_nat_less32:
  assumes "a < b" and "b < 2 ^ 32"
  shows "(of_nat a :: uint32) < of_nat b"
  using assms by (simp add: word_of_nat_less_iff take_bit_nat_eq_self)

lemma sint_01:
  fixes w :: uint32
  assumes "0 \<le> sint w" and "sint w \<le> 1"
  shows "w = 0 \<or> w = 1"
proof -
  have "sint w = 0 \<or> sint w = 1" using assms by arith
  then show ?thesis
  proof
    assume "sint w = 0"
    then have "sint w = sint (0 :: uint32)" by simp
    then have "w = 0" by (rule signed_word_eqI)
    then show ?thesis by simp
  next
    assume "sint w = 1"
    then have "sint w = sint (1 :: uint32)" by simp
    then have "w = 1" by (rule signed_word_eqI)
    then show ?thesis by simp
  qed
qed

lemma phase_FIRST_COMMITMENT:
  "GetPhase pb = FIRST_COMMITMENT \<longleftrightarrow> \<not> has_winner pb \<and> position_hashes pb = []"
  by (auto simp: GetPhase_def)

lemma phase_SECOND_COMMITMENT:
  "GetPhase pb = SECOND_COMMITMENT \<longleftrightarrow> \<not> has_winner pb \<and> length (position_hashes pb) = 1"
  by (auto simp: GetPhase_def)

lemma phase_FIRST_REVEAL_SEED:
  "GetPhase pb = FIRST_REVEAL_SEED \<longleftrightarrow>
     \<not> has_winner pb \<and> length (position_hashes pb) = 2 \<and> known_ships pb = []"
  by (auto simp: GetPhase_def)

lemma phase_SHOOT:
  "GetPhase pb = SHOOT \<longleftrightarrow>
     \<not> has_winner pb \<and> length (position_hashes pb) = 2 \<and> length (known_ships pb) = 2
     \<and> positions pb = [] \<and> \<not> has_current_shot pb"
  by (auto simp: GetPhase_def)

lemma phase_ANSWER:
  "GetPhase pb = ANSWER \<longleftrightarrow>
     \<not> has_winner pb \<and> length (position_hashes pb) = 2 \<and> length (known_ships pb) = 2
     \<and> positions pb = [] \<and> has_current_shot pb"
  by (auto simp: GetPhase_def)

lemma phase_SECOND_REVEAL_POSITION:
  "GetPhase pb = SECOND_REVEAL_POSITION \<longleftrightarrow>
     \<not> has_winner pb \<and> length (position_hashes pb) = 2 \<and> length (known_ships pb) = 2
     \<and> length (positions pb) = 2"
  by (auto simp: GetPhase_def)

lemma phase_FINISHED: "GetPhase pb = FINISHED \<longleftrightarrow> has_winner pb"
  by (auto simp: GetPhase_def)

lemmas phase_shape = phase_FIRST_COMMITMENT phase_SECOND_COMMITMENT phase_FIRST_REVEAL_SEED
  phase_SHOOT phase_ANSWER phase_SECOND_REVEAL_POSITION phase_FINISHED

lemma length2E:
  assumes "length xs = 2"
  obtains a b where "xs = [a, b]"
  using assms by (cases xs; cases "tl xs") auto

lemma turn_count_nat_bound:
  assumes "GetPhase pb \<noteq> PHASE_INVALID" and "\<not> has_winner pb"
  shows "turn_count_nat pb \<le> 262"
proof (cases "GetPhase pb")
  case SHOOT
  then have "length (known_ships pb) = 2" "positions pb = []" by (simp_all add: phase_SHOOT)
  then show ?thesis using turn_count_nat_le [of pb] by simp
next
  case ANSWER
  then have "length (known_ships pb) = 2" "positions pb = []" by (simp_all add: phase_ANSWER)
  then show ?thesis using turn_count_nat_le [of pb] by simp
next
  case SECOND_REVEAL_POSITION
  then have "length (known_ships pb) = 2" "length (positions pb) = 2"
    by (simp_all add: phase_SECOND_REVEAL_POSITION)
  then show ?thesis using turn_count_nat_le [of pb] by simp
next
  case FINISHED
  then show ?thesis using assms(2) by (simp add: phase_FINISHED)
qed (use assms in \<open>simp_all add: turn_count_nat_def\<close>)

lemma turn_count_nat_late:
  assumes "GetPhase pb \<noteq> PHASE_INVALID" and "\<not> has_winner pb"
    and "length (position_hashes pb) = 2"
  shows "3 \<le> turn_count_nat pb"
proof (cases "GetPhase pb")
  case FIRST_COMMITMENT
  then show ?thesis using assms(3) by (simp add: phase_FIRST_COMMITMENT)
next
  case SECOND_COMMITMENT
  then show ?thesis using assms(3) by (simp add: phase_SECOND_COMMITMENT)
next
  case FINISHED
  then show ?thesis using assms(2) by (simp add: phase_FINISHED)
qed (use assms in \<open>simp_all add: turn_count_nat_def\<close>)

lemma commit_turn_count:
  assumes r: "ApplyPositionCommitment mv (GetPhase st) st = Inr (Some n)"
    and ok: "GetPhase n \<noteq> PHASE_INVALID"
  shows "turn_count_nat st < turn_count_nat n \<and> turn_count_nat n \<le> 300"
proof -
  consider (first) "GetPhase st = FIRST_COMMITMENT" | (second) "GetPhase st = SECOND_COMMITMENT"
    using r by (cases "GetPhase st") (simp_all add: ApplyPositionCommitment_def split: if_splits)
  then show ?thesis
  proof cases
    case first
    then have old: "\<not> has_winner st" "position_hashes st = []"
      by (simp_all add: phase_FIRST_COMMITMENT)
    from r first old have "\<not> has_winner n \<and> length (position_hashes n) = 1"
      by (auto simp: ApplyPositionCommitment_def CHECK_def Let_def has_winner_def
               split: if_splits)
    then have "GetPhase n = SECOND_COMMITMENT" by (simp add: phase_SECOND_COMMITMENT)
    then show ?thesis using first by (simp add: turn_count_nat_def)
  next
    case second
    then have old: "\<not> has_winner st" "length (position_hashes st) = 1"
      by (simp_all add: phase_SECOND_COMMITMENT)
    from r second old have new: "\<not> has_winner n" "length (position_hashes n) = 2"
      by (auto simp: ApplyPositionCommitment_def CHECK_def Let_def has_winner_def
               split: if_splits)
    have "3 \<le> turn_count_nat n" using ok new by (rule turn_count_nat_late)
    moreover have "turn_count_nat n \<le> 262" using ok new(1) by (rule turn_count_nat_bound)
    ultimately show ?thesis using second by (simp add: turn_count_nat_def)
  qed
qed

lemma seed_reveal_turn_count:
  assumes r: "ApplySeedReveal ext mv (GetPhase st) st = Inr (Some n)"
    and ok: "GetPhase n \<noteq> PHASE_INVALID"
    and stale: "\<not> has_current_shot st"
  shows "turn_count_nat st < turn_count_nat n \<and> turn_count_nat n \<le> 300"
proof -
  have ph: "GetPhase st = FIRST_REVEAL_SEED"
    using r by (auto simp: ApplySeedReveal_def Let_def split: if_splits)
  then have old: "\<not> has_winner st" "length (position_hashes st) = 2" "known_ships st = []"
    by (simp_all add: phase_FIRST_REVEAL_SEED)
  from r ph old stale have new: "\<not> has_winner n" "length (position_hashes n) = 2"
      "known_ships n = [fresh_known_ships, fresh_known_ships]" "\<not> has_current_shot n"    by (auto simp: ApplySeedReveal_def Let_def has_winner_def has_current_shot_def
             split: if_splits)
  have le: "turn_count_nat n \<le> 262" using ok new(1) by (rule turn_count_nat_bound)
  have "GetPhase n = SHOOT \<or> GetPhase n = SECOND_REVEAL_POSITION"
    using ok new(1-4) by (auto simp: GetPhase_def split: if_splits)
  then have "4 \<le> turn_count_nat n"
    using new(4) by (auto simp: turn_count_nat_def)
  then show ?thesis using le ph by (simp add: turn_count_nat_def)
qed

lemma shots_nat_pair: "shots_nat [a, b] = CountOnes (guessed a) + CountOnes (guessed b)"
  by (simp add: shots_nat_def)

lemma other_player:
  fixes t :: uint32
  assumes "t = 0 \<or> t = 1"
  shows "sint (1 - t) = (if t = 0 then 1 else 0)"
  using assms by auto

lemma shot_turn_count:
  assumes r: "ApplyShot mv (GetPhase st) st = Inr (Some n)"
    and t: "turn st = 0 \<or> turn st = 1"
  shows "turn_count_nat st < turn_count_nat n \<and> turn_count_nat n \<le> 300"
proof -
  have ph: "GetPhase st = SHOOT"
    using r by (auto simp: ApplyShot_def split: if_splits)
  then have old: "\<not> has_winner st" "length (position_hashes st) = 2"
      "length (known_ships st) = 2" "positions st = []" "\<not> has_current_shot st"
    by (simp_all add: phase_SHOOT)
  from old(3) obtain a b where ks: "known_ships st = [a, b]" by (rule length2E)
  from r ph obtain target where loc: "opt_location mv = Some target" and on: "IsOnBoard target"
    by (auto simp: ApplyShot_def split: if_splits option.splits)
  have new: "\<not> has_winner n \<and> length (position_hashes n) = 2 \<and> positions n = []
      \<and> has_current_shot n \<and> length (known_ships n) = 2
      \<and> shots_nat (known_ships n) = Suc (shots_nat (known_ships st))"
    using r ph old ks loc on t
    by (auto simp: ApplyShot_def Let_def CHECK_def bindF_def at_def has_winner_def
          has_current_shot_def other_player shots_nat_pair guessed_def CountOnes_Grid_Set
          split: if_splits)
  then have "GetPhase n = ANSWER" by (simp add: phase_ANSWER)
  then have eq: "turn_count_nat n = 5 + 2 * shots_nat (known_ships st)"
    using new by (simp add: turn_count_nat_def)
  have "shots_nat (known_ships st) \<le> 64 * 2" using shots_nat_le [of "known_ships st"] old(3) by simp
  then show ?thesis using eq ph by (simp add: turn_count_nat_def)
qed

lemma shots_nat_hits_update:
  "shots_nat (ks[i := (ks ! i)\<lparr>opt_hits := h\<rparr>]) = shots_nat ks"
proof (induction ks arbitrary: i)
  case Nil
  show ?case by simp
next
  case (Cons k ks)
  show ?case
  proof (cases i)
    case 0
    then show ?thesis by (simp add: shots_nat_def guessed_def)
  next
    case (Suc j)
    then show ?thesis using Cons [of j] by (simp add: shots_nat_def)
  qed
qed

lemma reply_turn_count:
  assumes r: "ApplyReply mv (GetPhase st) st = Inr (Some n)"
  shows "turn_count_nat st < turn_count_nat n \<and> turn_count_nat n \<le> 300"
proof -
  have ph: "GetPhase st = ANSWER"
    using r by (auto simp: ApplyReply_def split: if_splits)
  then have old: "\<not> has_winner st" "length (position_hashes st) = 2"
      "length (known_ships st) = 2" "positions st = []" "has_current_shot st"
    by (simp_all add: phase_ANSWER)
  have new: "\<not> has_winner n \<and> length (position_hashes n) = 2 \<and> positions n = []
      \<and> \<not> has_current_shot n \<and> length (known_ships n) = 2
      \<and> shots_nat (known_ships n) = shots_nat (known_ships st)"
    using r ph old
    by (auto simp: ApplyReply_def Let_def CHECK_def bindF_def at_def has_winner_def
          has_current_shot_def shots_nat_hits_update
          split: if_splits option.splits Reply.splits)
  then have "GetPhase n = SHOOT" by (simp add: phase_SHOOT)
  then have eq: "turn_count_nat n = 4 + 2 * shots_nat (known_ships st)"
    using new by (simp add: turn_count_nat_def)
  have "shots_nat (known_ships st) \<le> 64 * 2" using shots_nat_le [of "known_ships st"] old(3) by simp
  then show ?thesis using eq ph by (simp add: turn_count_nat_def)
qed

definition same_board :: "BoardState \<Rightarrow> BoardState \<Rightarrow> bool" where
  "same_board a b \<longleftrightarrow>
     known_ships b = known_ships a \<and> positions b = positions a
     \<and> opt_current_shot b = opt_current_shot a
     \<and> length (position_hashes b) = length (position_hashes a)"

lemma reveal_verify_same:
  assumes "reveal_verify ext g other st = Inr (Some n)"
  shows "same_board st n"
  using assms
  by (auto simp: reveal_verify_def same_board_def bindF_def at_def split: if_splits)

lemma reveal_all_hit_same:
  assumes "reveal_all_hit ext phase other st = Inr n"
  shows "same_board st n"
  using assms
  by (auto simp: reveal_all_hit_def same_board_def bindF_def at_def Let_def split: if_splits)

lemma reveal_second_wins_same: "same_board st (reveal_second_wins phase st)"
  by (simp add: reveal_second_wins_def same_board_def)

lemma reveal_finish_same:
  assumes "reveal_finish phase other st = Inr (Some n)"
  shows "same_board st n \<and> (has_winner n \<or> phase \<noteq> SECOND_REVEAL_POSITION)"
  using assms
  by (auto simp: reveal_finish_def same_board_def CHECK_def has_winner_def split: if_splits)

lemma same_board_trans: "same_board a b \<Longrightarrow> same_board b c \<Longrightarrow> same_board a c"
  by (simp add: same_board_def)

lemma reveals_nat_update:
  assumes "i < length ps" and "ps ! i = 0" and "(ucast g :: uint32) \<noteq> 0"
  shows "reveals_nat (ps[i := g]) = Suc (reveals_nat ps)"
  using assms
proof (induction ps arbitrary: i)
  case Nil
  then show ?case by simp
next
  case (Cons p ps)
  then show ?case by (cases i) (simp_all add: reveals_nat_def)
qed

lemma reveal_record_effect:
  assumes r: "reveal_record g st = Inr n3"
  shows "\<exists>ps. ps = (if length (positions st) = 0 then positions st @ [0, 0] else positions st)
      \<and> length ps = 2 \<and> unat (turn st) < 2 \<and> ps ! unat (turn st) = 0
      \<and> positions n3 = ps[unat (turn st) := g]
      \<and> known_ships n3 = known_ships st
      \<and> opt_current_shot n3 = opt_current_shot st
      \<and> length (position_hashes n3) = length (position_hashes st)"
  using r
  by (auto simp: reveal_record_def Let_def CHECK_def bindF_def at_def turn_def
           split: if_splits)

lemma reveal_outcome_effect:
  assumes r: "reveal_outcome ext phase g n3 = Inr (Some n)"
  shows "same_board n3 n \<and> (has_winner n \<or> phase \<noteq> SECOND_REVEAL_POSITION)"
proof -
  define other where "other = sint (1 - turn n3)"
  from r have rest: "bindF (reveal_verify ext g other n3) (\<lambda>r.
                      case r of
                        None \<Rightarrow> Inr None
                      | Some n4 \<Rightarrow>
                          bindF (reveal_all_hit ext phase other n4) (\<lambda>n5.
                            reveal_finish phase other
                              (reveal_second_wins phase n5))) = Inr (Some n)"
    unfolding other_def
    by (simp add: reveal_outcome_def Let_def CHECK_def split: if_splits)
  from rest obtain n4 n5 where
      v: "reveal_verify ext g other n3 = Inr (Some n4)"
    and h: "reveal_all_hit ext phase other n4 = Inr n5"
    and f: "reveal_finish phase other (reveal_second_wins phase n5) = Inr (Some n)"
    by (auto simp: bindF_def split: sum.splits option.splits)
  have "same_board n3 n"
    using reveal_verify_same [OF v] reveal_all_hit_same [OF h]
      reveal_second_wins_same [of n5 phase] reveal_finish_same [OF f]
    by (blast intro: same_board_trans)
  moreover have "has_winner n \<or> phase \<noteq> SECOND_REVEAL_POSITION"
    using reveal_finish_same [OF f] by simp
  ultimately show ?thesis by simp
qed

lemma position_reveal_effect:
  assumes r: "ApplyPositionReveal ext mv phase st = Inr (Some n)"
  shows "\<exists>g ps. opt_position mv = Some g
      \<and> ps = (if length (positions st) = 0 then positions st @ [0, 0] else positions st)
      \<and> length ps = 2 \<and> unat (turn st) < 2 \<and> ps ! unat (turn st) = 0
      \<and> positions n = ps[unat (turn st) := g]
      \<and> known_ships n = known_ships st
      \<and> opt_current_shot n = opt_current_shot st
      \<and> length (position_hashes n) = length (position_hashes st)
      \<and> (has_winner n \<or> phase \<noteq> SECOND_REVEAL_POSITION)"
proof -
  from r obtain g where g: "opt_position mv = Some g"
    by (auto simp: ApplyPositionReveal_def split: if_splits option.splits)
  from r g obtain n3 where rec: "reveal_record g st = Inr n3"
    and out: "reveal_outcome ext phase g n3 = Inr (Some n)"
    by (auto simp: ApplyPositionReveal_def bindF_def split: if_splits sum.splits)
  from reveal_record_effect [OF rec] reveal_outcome_effect [OF out] g
  show ?thesis by (auto simp: same_board_def)
qed

lemma position_reveal_turn_count:
  assumes r: "ApplyPositionReveal ext mv (GetPhase st) st = Inr (Some n)"
    and nz: "\<forall>g. opt_position mv = Some g \<longrightarrow> (ucast g :: uint32) \<noteq> 0"
  shows "turn_count_nat st < turn_count_nat n \<and> turn_count_nat n \<le> 300"
proof -
  from position_reveal_effect [OF r] obtain g ps where
      g: "opt_position mv = Some g"
    and ps: "ps = (if length (positions st) = 0 then positions st @ [0, 0] else positions st)"
    and len: "length ps = 2" and tl: "unat (turn st) < 2" and z: "ps ! unat (turn st) = 0"
    and pn: "positions n = ps[unat (turn st) := g]"
    and ks: "known_ships n = known_ships st"
    and cs: "opt_current_shot n = opt_current_shot st"
    and hl: "length (position_hashes n) = length (position_hashes st)"
    and w: "has_winner n \<or> GetPhase st \<noteq> SECOND_REVEAL_POSITION"
    by blast
  have gnz: "(ucast g :: uint32) \<noteq> 0" using nz g by simp
  have rev: "reveals_nat (positions n) = Suc (reveals_nat ps)"
    unfolding pn using tl len z gnz by (intro reveals_nat_update) simp_all
  have phs: "GetPhase st = SHOOT \<or> GetPhase st = ANSWER \<or> GetPhase st = SECOND_REVEAL_POSITION"
    using r by (auto simp: ApplyPositionReveal_def split: if_splits)
  then have old: "length (position_hashes st) = 2" "length (known_ships st) = 2"
    by (auto simp: phase_shape)
  have sh: "shots_nat (known_ships st) \<le> 64 * 2"
    using shots_nat_le [of "known_ships st"] old(2) by simp
  have pl: "length (positions n) = 2" by (simp add: pn len)
  have csn: "has_current_shot n = has_current_shot st" by (simp add: has_current_shot_def cs)
  have newphase: "GetPhase n = FINISHED \<or> GetPhase n = SECOND_REVEAL_POSITION"
    using old hl ks pl by (cases "has_winner n") (simp_all add: phase_shape)
  then have new: "turn_count_nat n = (if has_current_shot st then 3 else 4)
       + 2 * shots_nat (known_ships st) + Suc (reveals_nat ps)"
    by (auto simp: turn_count_nat_def ks csn rev)
  have rps: "reveals_nat ps \<le> 2" using reveals_nat_le [of ps] len by simp
  from phs show ?thesis
  proof (elim disjE)
    assume p: "GetPhase st = SHOOT"
    then have e: "positions st = []" "\<not> has_current_shot st" by (simp_all add: phase_SHOOT)
    then have z: "reveals_nat ps = 0" using ps by (simp add: reveals_nat_def)
    have o: "turn_count_nat st = 4 + 2 * shots_nat (known_ships st)"
      using p by (simp add: turn_count_nat_def)
    show ?thesis using new o z sh e(2) by simp
  next
    assume p: "GetPhase st = ANSWER"
    then have e: "positions st = []" "has_current_shot st" by (simp_all add: phase_ANSWER)
    then have z: "reveals_nat ps = 0" using ps by (simp add: reveals_nat_def)
    have o: "turn_count_nat st = 3 + 2 * shots_nat (known_ships st)"
      using p by (simp add: turn_count_nat_def)
    show ?thesis using new o z sh e(2) by simp
  next
    assume p: "GetPhase st = SECOND_REVEAL_POSITION"
    then have "length (positions st) = 2" by (simp add: phase_SECOND_REVEAL_POSITION)
    then have e: "ps = positions st" using ps by simp
    have o: "turn_count_nat st = (if has_current_shot st then 3 else 4)
        + 2 * shots_nat (known_ships st) + reveals_nat ps"
      using p e by (simp add: turn_count_nat_def)
    show ?thesis using new o sh rps by simp
  qed
qed

lemma IsValid_phase:
  assumes "participants_size (GetMetadata s) = 2" and "IsValid s = Inr True"
  shows "GetPhase (GetState s) \<noteq> PHASE_INVALID"
  using assms by (auto simp: IsValid_def CHECK_def Let_def split: if_splits)

lemma WhoseTurn_player:
  assumes "WhoseTurn s = Inr (Some t)"
  shows "turn (GetState s) = 0 \<or> turn (GetState s) = 1"
proof -
  from assms have "0 \<le> sint (turn (GetState s))" "sint (turn (GetState s)) \<le> 1"
    by (auto simp: WhoseTurn_def CHECK_def Let_def split: if_splits)
  then show ?thesis by (rule sint_01)
qed

lemma apply_move_turn_count_nat:
  assumes accepted: "ApplyMoveProto ext s mv = Inr (Some n)"
    and defined: "GetPhase n \<noteq> PHASE_INVALID"
    and no_stale: "\<forall>m. move_case mv = kSeedReveal m \<longrightarrow> \<not> has_current_shot (GetState s)"
    and nonzero: "\<forall>m g. move_case mv = kPositionReveal m \<longrightarrow> opt_position m = Some g
                    \<longrightarrow> (ucast g :: uint32) \<noteq> 0"
  shows "turn_count_nat (GetState s) < turn_count_nat n \<and> turn_count_nat n \<le> 300"
proof -
  from accepted obtain t where wt: "WhoseTurn s = Inr (Some t)"
    by (auto simp: ApplyMoveProto_def bindF_def CHECK_def Let_def split: sum.splits if_splits)
  have t: "turn (GetState s) = 0 \<or> turn (GetState s) = 1" using wt by (rule WhoseTurn_player)
  show ?thesis
  proof (cases "move_case mv")
    case MOVE_NOT_SET
    then show ?thesis using accepted wt by (simp add: ApplyMoveProto_def bindF_def CHECK_def)
  next
    case (kPositionCommitment m)
    then have "ApplyPositionCommitment m (GetPhase (GetState s)) (GetState s) = Inr (Some n)"
      using accepted wt by (simp add: ApplyMoveProto_def bindF_def CHECK_def)
    then show ?thesis using defined by (rule commit_turn_count)
  next
    case (kSeedReveal m)
    then have "ApplySeedReveal ext m (GetPhase (GetState s)) (GetState s) = Inr (Some n)"
      using accepted wt by (simp add: ApplyMoveProto_def bindF_def CHECK_def)
    moreover have "\<not> has_current_shot (GetState s)" using no_stale kSeedReveal by simp
    ultimately show ?thesis using defined by (intro seed_reveal_turn_count)
  next
    case (kShot m)
    then have "ApplyShot m (GetPhase (GetState s)) (GetState s) = Inr (Some n)"
      using accepted wt by (simp add: ApplyMoveProto_def bindF_def CHECK_def)
    then show ?thesis using t by (rule shot_turn_count)
  next
    case (kReply m)
    then have "ApplyReply m (GetPhase (GetState s)) (GetState s) = Inr (Some n)"
      using accepted wt by (simp add: ApplyMoveProto_def bindF_def CHECK_def)
    then show ?thesis by (rule reply_turn_count)
  next
    case (kPositionReveal m)
    then have "ApplyPositionReveal ext m (GetPhase (GetState s)) (GetState s) = Inr (Some n)"
      using accepted wt by (simp add: ApplyMoveProto_def bindF_def CHECK_def)
    moreover have "\<forall>g. opt_position m = Some g \<longrightarrow> (ucast g :: uint32) \<noteq> 0"
      using nonzero kPositionReveal by simp
    ultimately show ?thesis by (rule position_reveal_turn_count)
  qed
qed

text \<open>
  C3 (as amended).  In a channel with two participants, let \<open>s\<close> be a valid board state and
  \<open>mv\<close> a move that \<^verbatim>\<open>ApplyMoveProto\<close> accepts with the new state \<open>n\<close>.  Provided the new
  state has a well-defined phase, the move is not a seed reveal on a state that carries a
  \<^verbatim>\<open>current_shot\<close>, and is not a position reveal whose position has all of its low 32 bits
  zero, both turn counts are defined and the turn count of \<open>n\<close> is strictly greater than
  that of \<open>s\<close>.
\<close>

theorem turn_count_strictly_increases:
  assumes two: "participants_size (GetMetadata s) = 2"
    and valid: "IsValid s = Inr True"
    and accepted: "ApplyMoveProto ext s mv = Inr (Some n)"
    and defined: "GetPhase n \<noteq> PHASE_INVALID"
    and no_stale: "\<forall>m. move_case mv = kSeedReveal m \<longrightarrow> \<not> has_current_shot (GetState s)"
    and nonzero: "\<forall>m g. move_case mv = kPositionReveal m \<longrightarrow> opt_position m = Some g
                    \<longrightarrow> (ucast g :: uint32) \<noteq> 0"
  shows "\<exists>a b. TurnCount s = Inr a \<and> TurnCount (s\<lparr>GetState := n\<rparr>) = Inr b \<and> a < b"
proof -
  have old: "TurnCount s = Inr (of_nat (turn_count_nat (GetState s)))"
    using two IsValid_phase [OF two valid] by (intro TurnCount_nat) simp_all
  have new: "TurnCount (s\<lparr>GetState := n\<rparr>) = Inr (of_nat (turn_count_nat n))"
    using two defined TurnCount_nat [of "s\<lparr>GetState := n\<rparr>"] by simp
  have "turn_count_nat (GetState s) < turn_count_nat n \<and> turn_count_nat n \<le> 300"
    using accepted defined no_stale nonzero by (rule apply_move_turn_count_nat)
  then have "(of_nat (turn_count_nat (GetState s)) :: uint32) < of_nat (turn_count_nat n)"
    by (intro word_of_nat_less32) simp_all
  then show ?thesis using old new by simp
qed

subsection \<open>Concrete inputs\<close>

text \<open>
  Concrete inputs.  The collaborators below are stand-ins with the interface of the real
  ones (a digest of 32 bytes); none of the results evaluated with them depends on the
  values they return, as the lemma for every collaborator shows.
\<close>

definition example_externals :: "(bytes list, bytes) externals" where
  "example_externals =
     \<lparr>SHA256_Hash = (\<lambda>data. take 32 (data @ replicate 32 (CHR ''#''))),
      SHA256_new = [],
      SHA256_feed = (\<lambda>data fed. fed @ [data]),
      SHA256_Finalise = (\<lambda>fed. take 32 (concat fed @ replicate 32 (CHR ''#''))),
      Random_new = [],
      Random_Seed = (\<lambda>digest rnd. digest),
      Random_NextBool = (\<lambda>rnd. case rnd of
                                  [] \<Rightarrow> (False, [])
                                | b # bs \<Rightarrow> (odd (of_char b :: nat), bs)),
      VerifyPositionOfShips = (\<lambda>position. False),
      VerifyPositionForAnswers = (\<lambda>position targeted hits. True),
      TotalShipCells = 18\<rparr>"

definition two_participants :: ChannelMetadata where
  "two_participants =
     \<lparr>participants =
        [\<lparr>name = ''alice'', address = ''addr 0'', participant_unknown = []\<rparr>,
         \<lparr>name = ''bob'', address = ''addr 1'', participant_unknown = []\<rparr>],
      reinit = [], metadata_unknown = []\<rparr>"

definition board :: "BoardState \<Rightarrow> ShipsBoardState" where
  "board pb = \<lparr>channelId = 7, GetMetadata = two_participants, GetState = pb\<rparr>"

definition no_known_ships :: KnownShips where
  "no_known_ships = \<lparr>opt_guessed = None, opt_hits = None, known_unknown = []\<rparr>"

definition shoot_state :: BoardState where
  "shoot_state =
     \<lparr>opt_turn = Some 0, position_hashes = [''foo'', ''bar''], opt_seed_hash_0 = None,
      opt_seed_1 = None,
      known_ships = [no_known_ships\<lparr>opt_guessed := Some 1\<rparr>,
                     no_known_ships\<lparr>opt_guessed := Some 2\<rparr>],
      positions = [], opt_current_shot = None, opt_winner = None, state_unknown = []\<rparr>"

definition shot_at_0 :: BoardMove where
  "shot_at_0 = \<lparr>move_case = kShot \<lparr>opt_location = Some 0, shot_unknown = []\<rparr>,
                 move_unknown = []\<rparr>"

definition after_shot :: BoardState where
  "after_shot =
     \<lparr>opt_turn = Some 1, position_hashes = [''foo'', ''bar''], opt_seed_hash_0 = None,
      opt_seed_1 = None,
      known_ships = [no_known_ships\<lparr>opt_guessed := Some 1\<rparr>,
                     no_known_ships\<lparr>opt_guessed := Some 3\<rparr>],
      positions = [], opt_current_shot = Some 0, opt_winner = None, state_unknown = []\<rparr>"

lemma two_participants_size: "participants_size (GetMetadata (board pb)) = 2"
  by (simp add: board_def two_participants_def participants_size_def)

lemma shoot_state_valid: "IsValid (board shoot_state) = Inr True"
  by code_simp

lemma shot_accepted: "ApplyMoveProto example_externals (board shoot_state) shot_at_0 = Inr (Some after_shot)"
  by code_simp

text \<open>
  The theorem at the shot of the test \<^verbatim>\<open>ShotTests.ValidShot\<close>: the turn count goes from 8 to 9.
\<close>

theorem turn_count_strictly_increases_witness:
  "participants_size (GetMetadata (board shoot_state)) = 2
   \<and> IsValid (board shoot_state) = Inr True
   \<and> ApplyMoveProto example_externals (board shoot_state) shot_at_0 = Inr (Some after_shot)
   \<and> GetPhase after_shot \<noteq> PHASE_INVALID
   \<and> (\<exists>a b. TurnCount (board shoot_state) = Inr a
          \<and> TurnCount ((board shoot_state)\<lparr>GetState := after_shot\<rparr>) = Inr b \<and> a < b)"
proof -
  have defined: "GetPhase after_shot \<noteq> PHASE_INVALID"
    by code_simp
  have no_stale: "\<forall>m. move_case shot_at_0 = kSeedReveal m
      \<longrightarrow> \<not> has_current_shot (GetState (board shoot_state))"
    by (simp add: shot_at_0_def)
  have nonzero: "\<forall>m g. move_case shot_at_0 = kPositionReveal m \<longrightarrow> opt_position m = Some g
      \<longrightarrow> (ucast g :: uint32) \<noteq> 0"
    by (simp add: shot_at_0_def)
  show ?thesis
    using turn_count_strictly_increases [OF two_participants_size shoot_state_valid
        shot_accepted defined no_stale nonzero]
      two_participants_size shoot_state_valid shot_accepted defined
    by simp
qed


text \<open>
  C3 as stated fails.  \<^verbatim>\<open>IsValid\<close> accepts a state waiting for the seed reveal that carries a
  \<^verbatim>\<open>current_shot\<close> (the validation does not look at the field there).  The seed reveal is
  accepted and leads to the answer phase, whose turn count is 3 as before the move.
\<close>

definition stale_shot_state :: "bytes \<Rightarrow> BoardState" where
  "stale_shot_state committed =
     \<lparr>opt_turn = Some 0, position_hashes = [''first hash'', ''second hash''],
      opt_seed_hash_0 = Some committed, opt_seed_1 = Some ''other seed'',
      known_ships = [], positions = [], opt_current_shot = Some 42, opt_winner = None,
      state_unknown = []\<rparr>"

definition reveal_seed :: "bytes \<Rightarrow> BoardMove" where
  "reveal_seed seed =
     \<lparr>move_case = kSeedReveal \<lparr>opt_reveal_seed = Some seed, seed_reveal_unknown = []\<rparr>,
      move_unknown = []\<rparr>"

definition after_seed_reveal :: "uint32 \<Rightarrow> BoardState" where
  "after_seed_reveal starter =
     \<lparr>opt_turn = Some starter, position_hashes = [''first hash'', ''second hash''],
      opt_seed_hash_0 = None, opt_seed_1 = None,
      known_ships = [fresh_known_ships, fresh_known_ships], positions = [],
      opt_current_shot = Some 42, opt_winner = None, state_unknown = []\<rparr>"

lemma seed_reveal_stale_shot_any_collaborators:
  assumes "length (SHA256_Hash ext seed) = 32" and "length seed \<le> 32"
  shows "\<exists>starter.
      IsValid (board (stale_shot_state (SHA256_Hash ext seed))) = Inr True
    \<and> ApplyMoveProto ext (board (stale_shot_state (SHA256_Hash ext seed))) (reveal_seed seed)
        = Inr (Some (after_seed_reveal starter))
    \<and> IsValid (board (after_seed_reveal starter)) = Inr True
    \<and> TurnCount (board (stale_shot_state (SHA256_Hash ext seed))) = Inr 3
    \<and> TurnCount (board (after_seed_reveal starter)) = Inr 3"
proof -
  define starter :: uint32 where
    "starter = (if fst (Random_NextBool ext (Random_Seed ext
         (SHA256_Finalise ext
           (SHA256_feed ext ''other seed'' (SHA256_feed ext seed (SHA256_new ext))))
         (Random_new ext))) then 1 else 0)"
  have p: "participants_size two_participants = 2"
    by (simp add: two_participants_def participants_size_def)
  have s01: "sint starter = 0 \<or> sint starter = 1" by (simp add: starter_def)
  have 1: "IsValid (board (stale_shot_state (SHA256_Hash ext seed))) = Inr True"
    by (simp add: IsValid_def board_def p CHECK_def GetPhase_def stale_shot_state_def
          has_winner_def has_turn_def turn_def)
  have 2: "ApplyMoveProto ext (board (stale_shot_state (SHA256_Hash ext seed))) (reveal_seed seed)
        = Inr (Some (after_seed_reveal starter))"
    using assms
    by (simp add: ApplyMoveProto_def WhoseTurn_def board_def p CHECK_def bindF_def
          GetPhase_def stale_shot_state_def has_winner_def has_turn_def turn_def
          reveal_seed_def ApplySeedReveal_def bytes_or_empty_def NUM_BYTES_def
          CheckHashValue_def seed_hash_0_def seed_1_def after_seed_reveal_def starter_def)
  have 3: "IsValid (board (after_seed_reveal starter)) = Inr True"
    using s01
    by (auto simp: IsValid_def board_def p CHECK_def GetPhase_def after_seed_reveal_def
          has_winner_def has_turn_def turn_def has_current_shot_def)
  have 4: "TurnCount (board (stale_shot_state (SHA256_Hash ext seed))) = Inr 3"
    by (simp add: TurnCount_def board_def p GetPhase_def stale_shot_state_def has_winner_def)
  have 5: "TurnCount (board (after_seed_reveal starter)) = Inr 3"
    by (simp add: TurnCount_def board_def p GetPhase_def after_seed_reveal_def has_winner_def
          has_current_shot_def count_shots_def fresh_known_ships_def guessed_def
          CountOnes_def CELLS_def)
  show ?thesis using 1 2 3 4 5 by blast
qed

text \<open>
  C3, counterexample: a valid state with two participants and an accepted move, with turn
  count 3 before and 3 after.
\<close>

theorem turn_count_not_increasing_counterexample:
  "participants_size (GetMetadata (board (stale_shot_state
       (SHA256_Hash example_externals ''foobar'')))) = 2
   \<and> IsValid (board (stale_shot_state (SHA256_Hash example_externals ''foobar''))) = Inr True
   \<and> ApplyMoveProto example_externals
        (board (stale_shot_state (SHA256_Hash example_externals ''foobar'')))
        (reveal_seed ''foobar'') = Inr (Some (after_seed_reveal 0))
   \<and> TurnCount (board (stale_shot_state (SHA256_Hash example_externals ''foobar''))) = Inr 3
   \<and> TurnCount (board (after_seed_reveal 0)) = Inr 3"
  by code_simp

section \<open>Boards stored as protocol buffers (protoboard.tpp)\<close>

text \<open>
  Parsing and serialising are the protocol-buffer library's \<^verbatim>\<open>ParseFromString\<close> and
  \<^verbatim>\<open>SerializeToString\<close>; they are parameters of the model.  Parsing yields no message for
  bytes that are not a well-formed message, and a message together with its unknown
  fields otherwise.
\<close>

record codec =
  ParseStateFromString :: "bytes \<Rightarrow> BoardState option"
  ParseMoveFromString :: "bytes \<Rightarrow> BoardMove option"
  SerializeStateToString :: "BoardState \<Rightarrow> bytes option"

text \<open>
  Modelled from the spec: \<^verbatim>\<open>HasAnyUnknownFields\<close> (its implementation is not among the
  sources).  Unknown fields are rejected at the structural layer: a message has unknown
  fields when its own set of unknown fields is not empty or a message nested in it has
  unknown fields.
\<close>

definition StateHasAnyUnknownFields :: "BoardState \<Rightarrow> bool" where
  "StateHasAnyUnknownFields pb =
     (state_unknown pb \<noteq> [] \<or> list_ex (\<lambda>k. known_unknown k \<noteq> []) (known_ships pb))"

definition MoveHasAnyUnknownFields :: "BoardMove \<Rightarrow> bool" where
  "MoveHasAnyUnknownFields mv =
     (move_unknown mv \<noteq> [] \<or>
      (case move_case mv of
         MOVE_NOT_SET \<Rightarrow> False
       | kPositionCommitment m \<Rightarrow> commitment_unknown m \<noteq> []
       | kSeedReveal m \<Rightarrow> seed_reveal_unknown m \<noteq> []
       | kShot m \<Rightarrow> shot_unknown m \<noteq> []
       | kReply m \<Rightarrow> reply_unknown m \<noteq> []
       | kPositionReveal m \<Rightarrow> position_reveal_unknown m \<noteq> []))"

text \<open>
  \<^verbatim>\<open>ProtoBoardRules::ParseState\<close>: \<open>Inr None\<close> is the null pointer.
\<close>

definition ParseState ::
  "codec \<Rightarrow> uint256 \<Rightarrow> ChannelMetadata \<Rightarrow> bytes \<Rightarrow> fatal + ShipsBoardState option" where
  "ParseState c cid meta s =
     (case ParseStateFromString c s of
        None \<Rightarrow> Inr None
      | Some p \<Rightarrow>
          if StateHasAnyUnknownFields p then Inr None
          else
            let res = \<lparr>channelId = cid, GetMetadata = meta, GetState = p\<rparr> in
            bindF (IsValid res) (\<lambda>valid.
              if \<not> valid then Inr None else Inr (Some res)))"

text \<open>
  \<^verbatim>\<open>ProtoBoardState::ApplyMove\<close>: \<open>Inr None\<close> is \<^verbatim>\<open>false\<close>, \<open>Inr (Some newState)\<close> is
  \<^verbatim>\<open>true\<close> with the serialised new state.
\<close>

definition ApplyMove ::
  "codec \<Rightarrow> ('h, 'r) externals \<Rightarrow> ShipsBoardState \<Rightarrow> bytes \<Rightarrow> fatal + bytes option" where
  "ApplyMove c ext s mv =
     (case ParseMoveFromString c mv of
        None \<Rightarrow> Inr None
      | Some pm \<Rightarrow>
          if MoveHasAnyUnknownFields pm then Inr None
          else
            bindF (ApplyMoveProto ext s pm) (\<lambda>r.
              case r of
                None \<Rightarrow> Inr None
              | Some pn \<Rightarrow>
                  (case SerializeStateToString c pn of
                     None \<Rightarrow> Inl CHECK_failed
                   | Some newState \<Rightarrow> Inr (Some newState))))"

section \<open>Unknown fields\<close>

text \<open>
  C5.  Bytes that parse to a board state with unknown fields (its own, or those of a nested
  \<^verbatim>\<open>known_ships\<close> entry) are rejected by \<^verbatim>\<open>ParseState\<close> (null), and bytes that parse to a
  board move with unknown fields (its own, or those of the selected move) are rejected by
  \<^verbatim>\<open>ApplyMove\<close> (false), whatever the board state and the rest of the message hold.  So a
  state that \<^verbatim>\<open>ParseState\<close> returns has no unknown fields.
\<close>

theorem unknown_fields_rejected:
  "(ParseStateFromString c bs = Some p \<longrightarrow> StateHasAnyUnknownFields p
      \<longrightarrow> ParseState c cid meta bs = Inr None)
   \<and> (ParseMoveFromString c mvb = Some pm \<longrightarrow> MoveHasAnyUnknownFields pm
      \<longrightarrow> ApplyMove c ext s mvb = Inr None)
   \<and> (ParseState c cid meta bs = Inr (Some res)
      \<longrightarrow> \<not> StateHasAnyUnknownFields (GetState res))"
proof (intro conjI impI)
  assume "ParseStateFromString c bs = Some p" and "StateHasAnyUnknownFields p"
  then show "ParseState c cid meta bs = Inr None" by (simp add: ParseState_def)
next
  assume "ParseMoveFromString c mvb = Some pm" and "MoveHasAnyUnknownFields pm"
  then show "ApplyMove c ext s mvb = Inr None" by (simp add: ApplyMove_def)
next
  assume "ParseState c cid meta bs = Inr (Some res)"
  then show "\<not> StateHasAnyUnknownFields (GetState res)"
    by (auto simp: ParseState_def bindF_def Let_def split: option.splits if_splits sum.splits)
qed

text \<open>
  A stand-in for the parser, for concrete inputs: the byte string \<^verbatim>\<open>?\<close> followed by a payload
  parses to the initial state (or to a shot at cell 0) with that payload as unknown field
  99; the empty string parses to the message without fields, and the text \<^verbatim>\<open>turn: 0\<close> to
  the initial state.
\<close>

definition example_codec :: codec where
  "example_codec =
     \<lparr>ParseStateFromString = (\<lambda>bs. case bs of
          [] \<Rightarrow> Some (InitialBoardState\<lparr>opt_turn := None\<rparr>)
        | b # payload \<Rightarrow>
            if b = CHR ''?'' then Some (InitialBoardState\<lparr>state_unknown := [(99, payload)]\<rparr>)
            else if bs = ''turn: 0'' then Some InitialBoardState
            else None),
      ParseMoveFromString = (\<lambda>bs. case bs of
          [] \<Rightarrow> Some \<lparr>move_case = MOVE_NOT_SET, move_unknown = []\<rparr>
        | b # payload \<Rightarrow>
            if b = CHR ''?''
            then Some \<lparr>move_case = kShot \<lparr>opt_location = Some 0, shot_unknown = [(99, payload)]\<rparr>,
                       move_unknown = []\<rparr>
            else None),
      SerializeStateToString = (\<lambda>pb. None)\<rparr>"

theorem unknown_fields_rejected_witness:
  "ParseStateFromString example_codec ''?x'' = Some (InitialBoardState\<lparr>state_unknown := [(99, ''x'')]\<rparr>)
   \<and> StateHasAnyUnknownFields (InitialBoardState\<lparr>state_unknown := [(99, ''x'')]\<rparr>)
   \<and> ParseState example_codec 7 two_participants ''?x'' = Inr None
   \<and> ParseMoveFromString example_codec ''?x''
       = Some \<lparr>move_case = kShot \<lparr>opt_location = Some 0, shot_unknown = [(99, ''x'')]\<rparr>,
               move_unknown = []\<rparr>
   \<and> MoveHasAnyUnknownFields
        \<lparr>move_case = kShot \<lparr>opt_location = Some 0, shot_unknown = [(99, ''x'')]\<rparr>,
         move_unknown = []\<rparr>
   \<and> ApplyMove example_codec example_externals (board shoot_state) ''?x'' = Inr None"
proof -
  have 1: "ParseStateFromString example_codec ''?x''
      = Some (InitialBoardState\<lparr>state_unknown := [(99, ''x'')]\<rparr>)"
    by (simp add: example_codec_def)
  have 2: "StateHasAnyUnknownFields (InitialBoardState\<lparr>state_unknown := [(99, ''x'')]\<rparr>)"
    by (simp add: StateHasAnyUnknownFields_def)
  have 3: "ParseMoveFromString example_codec ''?x''
       = Some \<lparr>move_case = kShot \<lparr>opt_location = Some 0, shot_unknown = [(99, ''x'')]\<rparr>,
               move_unknown = []\<rparr>"
    by (simp add: example_codec_def)
  have 4: "MoveHasAnyUnknownFields
        \<lparr>move_case = kShot \<lparr>opt_location = Some 0, shot_unknown = [(99, ''x'')]\<rparr>,
         move_unknown = []\<rparr>"
    by (simp add: MoveHasAnyUnknownFields_def)
  from unknown_fields_rejected [of example_codec "''?x''" _ 7 two_participants "''?x''" _
      example_externals "board shoot_state"] 1 2 3 4
  show ?thesis by simp
qed

section \<open>Determinism of applying a move\<close>

text \<open>
  An invocation of \<^verbatim>\<open>ApplyMoveProto\<close> constructs a hasher and a random generator of its own.
  What the state of a newly constructed object is lies with the library, and it need not be
  the same in two invocations: \<open>invocation ext h r\<close> is the library \<open>ext\<close> as an invocation
  finds it when its constructors produce the hasher \<open>h\<close> and the generator \<open>r\<close>.
\<close>

definition invocation :: "('h, 'r) externals \<Rightarrow> 'h \<Rightarrow> 'r \<Rightarrow> ('h, 'r) externals" where
  "invocation ext h r = ext\<lparr>SHA256_new := h, Random_new := r\<rparr>"

text \<open>
  The contract of the library, which the sources only declare.  A newly constructed hasher
  that is fed two strings finalises to the digest of their concatenation; and seeding a
  generator determines the bit it returns next, whatever state the generator was in.
\<close>

definition hashes_what_it_is_fed :: "('h, 'r) externals \<Rightarrow> 'h \<Rightarrow> bool" where
  "hashes_what_it_is_fed ext h \<longleftrightarrow>
     (\<forall>a b. SHA256_Finalise ext (SHA256_feed ext b (SHA256_feed ext a h))
              = SHA256_Hash ext (a @ b))"

definition seed_determines_next :: "('h, 'r) externals \<Rightarrow> bool" where
  "seed_determines_next ext \<longleftrightarrow>
     (\<forall>digest r r'. fst (Random_NextBool ext (Random_Seed ext digest r))
                    = fst (Random_NextBool ext (Random_Seed ext digest r')))"

lemma invocation_fields:
  "SHA256_Hash (invocation ext h r) = SHA256_Hash ext"
  "SHA256_new (invocation ext h r) = h"
  "SHA256_feed (invocation ext h r) = SHA256_feed ext"
  "SHA256_Finalise (invocation ext h r) = SHA256_Finalise ext"
  "Random_new (invocation ext h r) = r"
  "Random_Seed (invocation ext h r) = Random_Seed ext"
  "Random_NextBool (invocation ext h r) = Random_NextBool ext"
  "VerifyPositionOfShips (invocation ext h r) = VerifyPositionOfShips ext"
  "VerifyPositionForAnswers (invocation ext h r) = VerifyPositionForAnswers ext"
  "TotalShipCells (invocation ext h r) = TotalShipCells ext"
  by (simp_all add: invocation_def)

lemma position_reveal_of_invocation:
  "ApplyPositionReveal (invocation ext h r) m phase st = ApplyPositionReveal ext m phase st"
  unfolding ApplyPositionReveal_def reveal_outcome_def reveal_verify_def reveal_all_hit_def
    invocation_fields ..

text \<open>
  The seed reveal in any invocation, under the contract of the library: the starting player
  is the bit that a generator seeded with the digest of the revealed seed followed by the
  stored second seed returns.
\<close>

lemma seed_reveal_of_invocation:
  assumes "hashes_what_it_is_fed ext h" and "seed_determines_next ext"
  shows "ApplySeedReveal (invocation ext h r) m phase st =
     (let seed = bytes_or_empty (opt_reveal_seed m) in
      if phase \<noteq> FIRST_REVEAL_SEED then Inr None
      else if length seed > NUM_BYTES then Inr None
      else if \<not> CheckHashValue (SHA256_Hash ext seed) (seed_hash_0 st) then Inr None
      else Inr (Some (st
        \<lparr>opt_turn := Some (if fst (Random_NextBool ext
             (Random_Seed ext (SHA256_Hash ext (seed @ seed_1 st)) r0)) then 1 else 0),
         opt_seed_hash_0 := None, opt_seed_1 := None,
         known_ships := known_ships st @ [fresh_known_ships, fresh_known_ships]\<rparr>)))"
proof -
  have d: "SHA256_Finalise ext (SHA256_feed ext b (SHA256_feed ext a h)) = SHA256_Hash ext (a @ b)"
    for a b
    using assms(1) by (simp add: hashes_what_it_is_fed_def)
  have n: "fst (Random_NextBool ext (Random_Seed ext digest r))
      = fst (Random_NextBool ext (Random_Seed ext digest r0))" for digest
    using assms(2) unfolding seed_determines_next_def by blast
  show ?thesis
    unfolding ApplySeedReveal_def invocation_fields Let_def d n by simp
qed

text \<open>
  C6.  Take two invocations of applying a move, each with the hasher and the generator that
  its constructors produce, on board objects with the same state and the same number of
  participants, and let the library keep its contract in both.  Then the two invocations
  give the same result for the same move: the same abort, the same rejection, or acceptance
  with the same new state; this holds for the parsed move and for the serialised one.  The
  starting player that an accepted seed reveal sets is the bit that a generator returns
  after it has been seeded with the digest of the revealed seed followed by the stored
  second seed, in whatever state \<open>r0\<close> the generator was before: it is derived from the two
  seeds only.
\<close>

theorem apply_move_deterministic:
  assumes "GetState s = GetState s'"
    and "participants_size (GetMetadata s) = participants_size (GetMetadata s')"
    and "hashes_what_it_is_fed ext h"
    and "hashes_what_it_is_fed ext h'"
    and "seed_determines_next ext"
  shows "ApplyMoveProto (invocation ext h r) s pm = ApplyMoveProto (invocation ext h' r') s' pm
    \<and> ApplyMove c (invocation ext h r) s mv = ApplyMove c (invocation ext h' r') s' mv
    \<and> (\<forall>m n. move_case pm = kSeedReveal m
          \<and> ApplyMoveProto (invocation ext h r) s pm = Inr (Some n)
        \<longrightarrow> opt_turn n = Some (if fst (Random_NextBool ext (Random_Seed ext
               (SHA256_Hash ext (bytes_or_empty (opt_reveal_seed m) @ seed_1 (GetState s))) r0))
             then 1 else 0))"
proof -
  have seed: "ApplySeedReveal (invocation ext h r) m phase st
      = ApplySeedReveal (invocation ext h' r') m phase st" for m phase st
    unfolding seed_reveal_of_invocation [OF assms(3) assms(5), of r m phase st r0]
      seed_reveal_of_invocation [OF assms(4) assms(5), of r' m phase st r0] ..
  have proto: "ApplyMoveProto (invocation ext h r) s p = ApplyMoveProto (invocation ext h' r') s' p"
    for p
  proof -
    have "ApplyMoveProto (invocation ext h r) s p = ApplyMoveProto (invocation ext h' r') s p"
      unfolding ApplyMoveProto_def seed position_reveal_of_invocation ..
    also have "\<dots> = ApplyMoveProto (invocation ext h' r') s' p"
      using assms(1,2) by (simp add: ApplyMoveProto_def WhoseTurn_def Let_def)
    finally show ?thesis .
  qed
  have bytes: "ApplyMove c (invocation ext h r) s mv = ApplyMove c (invocation ext h' r') s' mv"
    using proto by (simp add: ApplyMove_def split: option.splits)
  have starter: "opt_turn n = Some (if fst (Random_NextBool ext (Random_Seed ext
               (SHA256_Hash ext (bytes_or_empty (opt_reveal_seed m) @ seed_1 (GetState s))) r0))
             then 1 else 0)"
    if m: "move_case pm = kSeedReveal m"
      and n: "ApplyMoveProto (invocation ext h r) s pm = Inr (Some n)" for m n
  proof -
    from n m have "ApplySeedReveal (invocation ext h r) m (GetPhase (GetState s)) (GetState s)
        = Inr (Some n)"
      by (auto simp: ApplyMoveProto_def Let_def bindF_def CHECK_def split: sum.splits if_splits)
    then show ?thesis
      unfolding seed_reveal_of_invocation [OF assms(3) assms(5), of r m _ _ r0]
      by (auto simp: Let_def split: if_splits)
  qed
  show ?thesis
    using proto bytes starter by blast
qed

text \<open>
  Two invocations on the seed reveal of the seed \<^verbatim>\<open>abc\<close>: one on a board of alice and bob,
  with an empty hasher and an unseeded generator, the other on a board of carol and dave in
  the same state, with a hasher that has been fed the empty string and a generator that
  holds an earlier seed.  Both accept the move, with the second player to start.
\<close>

definition other_two_participants :: ChannelMetadata where
  "other_two_participants =
     \<lparr>participants =
        [\<lparr>name = ''carol'', address = ''addr 2'', participant_unknown = []\<rparr>,
         \<lparr>name = ''dave'', address = ''addr 3'', participant_unknown = []\<rparr>],
      reinit = ''reinit 2'', metadata_unknown = []\<rparr>"

definition other_board :: "BoardState \<Rightarrow> ShipsBoardState" where
  "other_board pb = \<lparr>channelId = 8, GetMetadata = other_two_participants, GetState = pb\<rparr>"

definition abc_committed :: BoardState where
  "abc_committed = stale_shot_state (SHA256_Hash example_externals ''abc'')"

lemma example_hasher:
  "hashes_what_it_is_fed example_externals []" "hashes_what_it_is_fed example_externals [[]]"
  by (simp_all add: hashes_what_it_is_fed_def example_externals_def)

lemma example_generator: "seed_determines_next example_externals"
  by (simp add: seed_determines_next_def example_externals_def)

theorem apply_move_deterministic_witness:
  "GetState (board abc_committed) = GetState (other_board abc_committed)
   \<and> participants_size (GetMetadata (board abc_committed))
       = participants_size (GetMetadata (other_board abc_committed))
   \<and> hashes_what_it_is_fed example_externals []
   \<and> hashes_what_it_is_fed example_externals [[]]
   \<and> seed_determines_next example_externals
   \<and> ApplyMoveProto (invocation example_externals [] []) (board abc_committed)
        (reveal_seed ''abc'')
       = ApplyMoveProto (invocation example_externals [[]] ''earlier seed'')
           (other_board abc_committed) (reveal_seed ''abc'')
   \<and> ApplyMoveProto (invocation example_externals [[]] ''earlier seed'')
        (other_board abc_committed) (reveal_seed ''abc'') = Inr (Some (after_seed_reveal 1))"
proof -
  have 1: "GetState (board abc_committed) = GetState (other_board abc_committed)"
    by (simp add: board_def other_board_def)
  have 2: "participants_size (GetMetadata (board abc_committed))
       = participants_size (GetMetadata (other_board abc_committed))"
    by (simp add: board_def other_board_def participants_size_def two_participants_def
          other_two_participants_def)
  note 3 = example_hasher(1) and 4 = example_hasher(2) and 5 = example_generator
  have 6: "ApplyMoveProto (invocation example_externals [[]] ''earlier seed'')
        (other_board abc_committed) (reveal_seed ''abc'') = Inr (Some (after_seed_reveal 1))"
    by code_simp
  note d = apply_move_deterministic [OF 1 2 3 4 5, where r = "[]" and r' = "''earlier seed''"
      and pm = "reveal_seed ''abc''"]
  have 7: "ApplyMoveProto (invocation example_externals [] []) (board abc_committed)
        (reveal_seed ''abc'')
       = ApplyMoveProto (invocation example_externals [[]] ''earlier seed'')
           (other_board abc_committed) (reveal_seed ''abc'')"
    using d by blast
  show ?thesis
    using 1 2 3 4 5 6 7 by blast
qed

section \<open>State proofs\<close>

text \<open>
  The messages of a state proof, with the fields that the data model of the specification
  gives them (the generated classes are not among the sources).
\<close>

record SignedData =
  opt_data :: "bytes option"
  signatures :: "bytes list"

record StateTransition =
  opt_move :: "bytes option"
  opt_new_state :: "SignedData option"

record StateProof =
  opt_initial_state :: "SignedData option"
  transitions :: "StateTransition list"

definition empty_SignedData :: SignedData where
  "empty_SignedData = \<lparr>opt_data = None, signatures = []\<rparr>"

definition empty_StateProof :: StateProof where
  "empty_StateProof = \<lparr>opt_initial_state = None, transitions = []\<rparr>"

definition data :: "SignedData \<Rightarrow> bytes" where
  "data sd = bytes_or_empty (opt_data sd)"

definition initial_state :: "StateProof \<Rightarrow> SignedData" where
  "initial_state p = (case opt_initial_state p of None \<Rightarrow> empty_SignedData | Some sd \<Rightarrow> sd)"

definition new_state :: "StateTransition \<Rightarrow> SignedData" where
  "new_state t = (case opt_new_state t of None \<Rightarrow> empty_SignedData | Some sd \<Rightarrow> sd)"

text \<open>
  Modelled from the spec: \<^verbatim>\<open>UnverifiedProofEndState\<close> (\<^verbatim>\<open>stateproof.cpp\<close> is not among the
  sources).  The final state of a proof is its initial state when there are no
  transitions, and the new state of the last transition otherwise.
\<close>

definition UnverifiedProofEndState :: "StateProof \<Rightarrow> bytes" where
  "UnverifiedProofEndState p =
     (if transitions p = [] then data (initial_state p)
      else data (new_state (last (transitions p))))"

section \<open>The table of channels (database.cpp)\<close>

text \<open>
  A row of \<^verbatim>\<open>xgame_game_channels\<close>, without its primary key: the BLOB columns hold
  serialised messages, and a column that is NULL is \<open>None\<close>.  The table is a list of rows
  by id; \<^verbatim>\<open>INSERT OR REPLACE\<close> keeps one row per id.
\<close>

record ChannelRow =
  col_metadata :: bytes
  col_reinit :: bytes
  col_stateproof :: "bytes option"
  col_disputeHeight :: "int option"

type_synonym channels = "(uint256 \<times> ChannelRow) list"

definition InsertOrReplace :: "uint256 \<Rightarrow> ChannelRow \<Rightarrow> channels \<Rightarrow> channels" where
  "InsertOrReplace i r t = (i, r) # filter (\<lambda>kr. fst kr \<noteq> i) t"

definition SelectById :: "channels \<Rightarrow> uint256 \<Rightarrow> ChannelRow option" where
  "SelectById t i = map_of t i"

definition DeleteById :: "uint256 \<Rightarrow> channels \<Rightarrow> channels" where
  "DeleteById i t = filter (\<lambda>kr. fst kr \<noteq> i) t"

definition QueryAll :: "channels \<Rightarrow> channels" where
  "QueryAll t = sort_key fst t"

text \<open>
  \<^verbatim>\<open>WHERE disputeHeight <= ?1\<close> selects no row whose dispute height is NULL.  The bound
  is a \<^verbatim>\<open>const unsigned\<close>, bound to the statement as the SQL integer of the same value.
\<close>

definition QueryForDisputeHeight :: "uint32 \<Rightarrow> channels \<Rightarrow> channels" where
  "QueryForDisputeHeight height t =
     sort_key fst
       (filter (\<lambda>kr. case col_disputeHeight (snd kr) of
                       None \<Rightarrow> False
                     | Some d \<Rightarrow> d \<le> uint height) t)"

text \<open>
  Serialising and parsing the metadata and the state proof is the protocol-buffer
  library's; a parameter of the model.
\<close>

record wire =
  SerializeMetadata :: "ChannelMetadata \<Rightarrow> bytes option"
  ParseMetadata :: "bytes \<Rightarrow> ChannelMetadata option"
  SerializeProof :: "StateProof \<Rightarrow> bytes option"
  ParseProof :: "bytes \<Rightarrow> StateProof option"

record ChannelData =
  cd_id :: uint256
  initialised :: bool
  cd_metadata :: ChannelMetadata
  cd_reinit :: bytes
  cd_proof :: StateProof
  disputeHeight :: uint32
  dirty :: bool

definition empty_ChannelMetadata :: ChannelMetadata where
  "empty_ChannelMetadata = \<lparr>participants = [], reinit = [], metadata_unknown = []\<rparr>"

definition StateProofFromReinit :: "bytes \<Rightarrow> StateProof" where
  "StateProofFromReinit r =
     empty_StateProof\<lparr>opt_initial_state := Some (empty_SignedData\<lparr>opt_data := Some r\<rparr>)\<rparr>"

text \<open>The constructor for a new channel, and the one from a result row.\<close>

definition NewChannelData :: "uint256 \<Rightarrow> ChannelData" where
  "NewChannelData i =
     \<lparr>cd_id = i, initialised = False, cd_metadata = empty_ChannelMetadata, cd_reinit = [],
      cd_proof = empty_StateProof, disputeHeight = 0, dirty = True\<rparr>"

definition ChannelDataFromRow :: "wire \<Rightarrow> uint256 \<Rightarrow> ChannelRow \<Rightarrow> fatal + ChannelData" where
  "ChannelDataFromRow w i row =
     (case ParseMetadata w (col_metadata row) of
        None \<Rightarrow> Inl CHECK_failed
      | Some m \<Rightarrow>
          bindF (case col_stateproof row of
                   None \<Rightarrow> Inr (StateProofFromReinit (col_reinit row))
                 | Some b \<Rightarrow>
                     (case ParseProof w b of None \<Rightarrow> Inl CHECK_failed | Some p \<Rightarrow> Inr p))
            (\<lambda>p. Inr \<lparr>cd_id = i, initialised = True, cd_metadata = m,
                       cd_reinit = col_reinit row, cd_proof = p,
                       disputeHeight = (case col_disputeHeight row of
                                          None \<Rightarrow> 0 | Some d \<Rightarrow> of_int d),
                       dirty = False\<rparr>))"

definition GetLatestState :: "ChannelData \<Rightarrow> fatal + bytes" where
  "GetLatestState cd = CHECK (initialised cd) (Inr (UnverifiedProofEndState (cd_proof cd)))"

text \<open>
  The destructor: the row is written only when the instance is dirty.
\<close>

definition DestroyChannelData :: "wire \<Rightarrow> ChannelData \<Rightarrow> channels \<Rightarrow> fatal + channels" where
  "DestroyChannelData w cd db =
     CHECK (initialised cd)
      (if \<not> dirty cd then Inr db
       else
         (case SerializeMetadata w (cd_metadata cd) of
            None \<Rightarrow> Inl CHECK_failed
          | Some m \<Rightarrow>
              bindF (GetLatestState cd) (\<lambda>latest.
              bindF (if latest = cd_reinit cd then Inr None
                     else (case SerializeProof w (cd_proof cd) of
                             None \<Rightarrow> Inl CHECK_failed
                           | Some p \<Rightarrow> Inr (Some p)))
                (\<lambda>sp. Inr (InsertOrReplace (cd_id cd)
                         \<lparr>col_metadata = m, col_reinit = cd_reinit cd, col_stateproof = sp,
                          col_disputeHeight =
                            (if disputeHeight cd = 0 then None
                             else Some (uint (disputeHeight cd)))\<rparr> db)))))"

definition GetMetadata_cd :: "ChannelData \<Rightarrow> fatal + ChannelMetadata" where
  "GetMetadata_cd cd = CHECK (initialised cd) (Inr (cd_metadata cd))"

definition GetReinitState :: "ChannelData \<Rightarrow> fatal + bytes" where
  "GetReinitState cd = CHECK (initialised cd) (Inr (cd_reinit cd))"

definition Reinitialise :: "ChannelMetadata \<Rightarrow> bytes \<Rightarrow> ChannelData \<Rightarrow> fatal + ChannelData" where
  "Reinitialise m initialisedState cd =
     CHECK (\<not> initialised cd \<or> reinit (cd_metadata cd) \<noteq> reinit m)
      (Inr (cd\<lparr>cd_metadata := m, cd_reinit := initialisedState,
               cd_proof := StateProofFromReinit initialisedState,
               initialised := True, dirty := True\<rparr>))"

definition GetStateProof :: "ChannelData \<Rightarrow> fatal + StateProof" where
  "GetStateProof cd = CHECK (initialised cd) (Inr (cd_proof cd))"

definition SetStateProof :: "StateProof \<Rightarrow> ChannelData \<Rightarrow> fatal + ChannelData" where
  "SetStateProof p cd = CHECK (initialised cd) (Inr (cd\<lparr>dirty := True, cd_proof := p\<rparr>))"

definition GetDisputeHeight :: "ChannelData \<Rightarrow> fatal + uint32" where
  "GetDisputeHeight cd = CHECK (disputeHeight cd > 0) (Inr (disputeHeight cd))"

definition SetDisputeHeight :: "uint32 \<Rightarrow> ChannelData \<Rightarrow> fatal + ChannelData" where
  "SetDisputeHeight h cd = CHECK (h > 0) (Inr (cd\<lparr>dirty := True, disputeHeight := h\<rparr>))"

text \<open>\<^verbatim>\<open>ChannelsTable::GetById\<close>: \<open>Inr None\<close> is the null handle.\<close>

definition GetById :: "wire \<Rightarrow> channels \<Rightarrow> uint256 \<Rightarrow> fatal + ChannelData option" where
  "GetById w db i =
     (case SelectById db i of
        None \<Rightarrow> Inr None
      | Some row \<Rightarrow> bindF (ChannelDataFromRow w i row) (\<lambda>h. Inr (Some h)))"

definition CreateNew :: "uint256 \<Rightarrow> ChannelData" where
  "CreateNew i = NewChannelData i"

section \<open>Reading a channel row\<close>

text \<open>
  The methods of a handle as calls, so that a sequence of them can be run on it.  The
  getters leave the instance as it is (their results are not kept here).
\<close>

datatype method_call =
    CallGetMetadata
  | CallGetReinitState
  | CallGetStateProof
  | CallGetLatestState
  | CallGetDisputeHeight
  | CallReinitialise ChannelMetadata bytes
  | CallSetStateProof StateProof
  | CallSetDisputeHeight uint32

fun is_mutating :: "method_call \<Rightarrow> bool" where
  "is_mutating (CallReinitialise m s) = True"
| "is_mutating (CallSetStateProof p) = True"
| "is_mutating (CallSetDisputeHeight h) = True"
| "is_mutating c = False"

fun call :: "method_call \<Rightarrow> ChannelData \<Rightarrow> fatal + ChannelData" where
  "call CallGetMetadata cd = bindF (GetMetadata_cd cd) (\<lambda>r. Inr cd)"
| "call CallGetReinitState cd = bindF (GetReinitState cd) (\<lambda>r. Inr cd)"
| "call CallGetStateProof cd = bindF (GetStateProof cd) (\<lambda>r. Inr cd)"
| "call CallGetLatestState cd = bindF (GetLatestState cd) (\<lambda>r. Inr cd)"
| "call CallGetDisputeHeight cd = bindF (GetDisputeHeight cd) (\<lambda>r. Inr cd)"
| "call (CallReinitialise m s) cd = Reinitialise m s cd"
| "call (CallSetStateProof p) cd = SetStateProof p cd"
| "call (CallSetDisputeHeight h) cd = SetDisputeHeight h cd"

fun calls :: "method_call list \<Rightarrow> ChannelData \<Rightarrow> fatal + ChannelData" where
  "calls [] cd = Inr cd"
| "calls (c # cs) cd = bindF (call c cd) (calls cs)"

lemma call_read_only:
  assumes "\<not> is_mutating c" and "call c cd = Inr cd'"
  shows "cd' = cd"
  using assms by (cases c) (auto simp: bindF_def split: sum.splits)

lemma calls_read_only:
  assumes "\<forall>c \<in> set cs. \<not> is_mutating c" and "calls cs cd = Inr cd'"
  shows "cd' = cd"
  using assms
proof (induction cs arbitrary: cd)
  case Nil
  then show ?case by simp
next
  case (Cons c cs)
  from Cons.prems(2) obtain cd1 where 1: "call c cd = Inr cd1" and 2: "calls cs cd1 = Inr cd'"
    by (auto simp: bindF_def split: sum.splits)
  have "cd1 = cd" using Cons.prems(1) 1 by (intro call_read_only [of c]) simp_all
  moreover have "cd' = cd1" using Cons.prems(1) 2 by (intro Cons.IH) simp_all
  ultimately show ?case by simp
qed

lemma ChannelDataFromRow_clean:
  assumes "ChannelDataFromRow w i row = Inr h"
  shows "initialised h \<and> \<not> dirty h"
  using assms
  by (auto simp: ChannelDataFromRow_def bindF_def split: option.splits sum.splits)

text \<open>
  C10.  A handle that \<^verbatim>\<open>GetById\<close> constructs from an existing row, on which only getters
  are called (no \<^verbatim>\<open>Reinitialise\<close>, \<^verbatim>\<open>SetStateProof\<close> or \<^verbatim>\<open>SetDisputeHeight\<close>), writes
  nothing when it is destroyed: the destructor returns the table as it was.
\<close>

theorem read_only_handle_writes_nothing:
  assumes "GetById w db i = Inr (Some h)"
    and "\<forall>c \<in> set cs. \<not> is_mutating c"
    and "calls cs h = Inr h'"
  shows "DestroyChannelData w h' db = Inr db"
proof -
  from assms(1) obtain row where "ChannelDataFromRow w i row = Inr h"
    by (auto simp: GetById_def bindF_def split: option.splits sum.splits)
  then have "initialised h \<and> \<not> dirty h" by (rule ChannelDataFromRow_clean)
  moreover have "h' = h" using assms(2,3) by (rule calls_read_only)
  ultimately show ?thesis by (simp add: DestroyChannelData_def CHECK_def)
qed

section \<open>Storing and loading a channel row\<close>

lemma SelectById_InsertOrReplace: "SelectById (InsertOrReplace i r t) i = Some r"
  by (simp add: SelectById_def InsertOrReplace_def)

lemma end_state_from_reinit: "UnverifiedProofEndState (StateProofFromReinit r) = r"
  by (simp add: UnverifiedProofEndState_def StateProofFromReinit_def empty_StateProof_def
        empty_SignedData_def initial_state_def data_def bytes_or_empty_def)

lemma dispute_height_column:
  fixes h :: uint32
  shows "(case (if h = 0 then None else Some (uint h)) of None \<Rightarrow> 0 | Some d \<Rightarrow> of_int d) = h"
  by simp

text \<open>
  C9.  Let a modified (dirty) and initialised \<^verbatim>\<open>ChannelData\<close> be written by its destructor.
  The \<^verbatim>\<open>stateproof\<close> column of its row is NULL exactly when the final state of the proof
  equals the reinitialisation state.  Loading the row again succeeds, provided that the
  protocol-buffer library parses the serialised metadata and state proof back to what was
  serialised; a NULL \<^verbatim>\<open>stateproof\<close> is loaded as the proof whose initial state data is the
  reinitialisation state, and the loaded instance has the same metadata, reinitialisation
  state, latest state and dispute height as the stored one.
\<close>

theorem stored_row_round_trip:
  assumes init: "initialised cd" and modified: "dirty cd"
    and destroyed: "DestroyChannelData w cd db = Inr db'"
    and rt_meta: "\<forall>b. SerializeMetadata w (cd_metadata cd) = Some b
                    \<longrightarrow> ParseMetadata w b = Some (cd_metadata cd)"
    and rt_proof: "\<forall>b. SerializeProof w (cd_proof cd) = Some b
                    \<longrightarrow> ParseProof w b = Some (cd_proof cd)"
  shows "\<exists>row cd'. SelectById db' (cd_id cd) = Some row
      \<and> (col_stateproof row = None \<longleftrightarrow> UnverifiedProofEndState (cd_proof cd) = cd_reinit cd)
      \<and> GetById w db' (cd_id cd) = Inr (Some cd')
      \<and> (col_stateproof row = None \<longrightarrow>
           cd_proof cd' = StateProofFromReinit (cd_reinit cd)
           \<and> data (initial_state (cd_proof cd')) = cd_reinit cd)
      \<and> cd_metadata cd' = cd_metadata cd
      \<and> cd_reinit cd' = cd_reinit cd
      \<and> GetLatestState cd' = GetLatestState cd
      \<and> disputeHeight cd' = disputeHeight cd"
proof -
  define latest where "latest = UnverifiedProofEndState (cd_proof cd)"
  from destroyed init modified obtain m where m: "SerializeMetadata w (cd_metadata cd) = Some m"
    by (auto simp: DestroyChannelData_def CHECK_def split: option.splits)
  define sp where "sp = (if latest = cd_reinit cd then None else SerializeProof w (cd_proof cd))"
  define row where "row = \<lparr>col_metadata = m, col_reinit = cd_reinit cd, col_stateproof = sp,
      col_disputeHeight = (if disputeHeight cd = 0 then None else Some (uint (disputeHeight cd)))\<rparr>"
  have ser: "latest \<noteq> cd_reinit cd \<Longrightarrow> \<exists>p. SerializeProof w (cd_proof cd) = Some p"
    using destroyed init modified m
    by (auto simp: DestroyChannelData_def CHECK_def GetLatestState_def bindF_def latest_def
             split: option.splits if_splits)
  have db': "db' = InsertOrReplace (cd_id cd) row db"
    using destroyed init modified m
    by (auto simp: DestroyChannelData_def CHECK_def GetLatestState_def bindF_def latest_def
          row_def sp_def split: option.splits if_splits)
  have sel: "SelectById db' (cd_id cd) = Some row"
    by (simp add: db' SelectById_InsertOrReplace)
  have null: "col_stateproof row = None \<longleftrightarrow> latest = cd_reinit cd"
    using ser by (auto simp: row_def sp_def)
  have pm: "ParseMetadata w m = Some (cd_metadata cd)" using rt_meta m by simp
  define p' where "p' = (if latest = cd_reinit cd then StateProofFromReinit (cd_reinit cd)
                          else cd_proof cd)"
  define cd' where "cd' = \<lparr>cd_id = cd_id cd, initialised = True, cd_metadata = cd_metadata cd,
      cd_reinit = cd_reinit cd, cd_proof = p', disputeHeight = disputeHeight cd, dirty = False\<rparr>"
  have load: "ChannelDataFromRow w (cd_id cd) row = Inr cd'"
  proof (cases "latest = cd_reinit cd")
    case True
    then show ?thesis
      by (simp add: ChannelDataFromRow_def row_def sp_def pm bindF_def cd'_def p'_def)
  next
    case False
    then obtain p where p: "SerializeProof w (cd_proof cd) = Some p" using ser by blast
    then have "ParseProof w p = Some (cd_proof cd)" using rt_proof by simp
    then show ?thesis using False p
      by (simp add: ChannelDataFromRow_def row_def sp_def pm bindF_def cd'_def p'_def)
  qed
  have get: "GetById w db' (cd_id cd) = Inr (Some cd')"
    by (simp add: GetById_def sel load bindF_def)
  have latest': "UnverifiedProofEndState p' = latest"
    by (simp add: p'_def end_state_from_reinit latest_def)
  have gl: "GetLatestState cd' = GetLatestState cd"
    using init latest' by (simp add: GetLatestState_def cd'_def CHECK_def latest_def)
  have fromreinit: "col_stateproof row = None \<longrightarrow>
           cd_proof cd' = StateProofFromReinit (cd_reinit cd)
           \<and> data (initial_state (cd_proof cd')) = cd_reinit cd"
    using null
    by (simp add: cd'_def p'_def StateProofFromReinit_def initial_state_def data_def
          bytes_or_empty_def empty_StateProof_def empty_SignedData_def)
  have null': "col_stateproof row = None \<longleftrightarrow> UnverifiedProofEndState (cd_proof cd) = cd_reinit cd"
    using null by (simp add: latest_def)
  have fields: "cd_metadata cd' = cd_metadata cd" "cd_reinit cd' = cd_reinit cd"
      "disputeHeight cd' = disputeHeight cd"
    by (simp_all add: cd'_def)
  show ?thesis
  proof (intro exI conjI)
    show "SelectById db' (cd_id cd) = Some row" by (fact sel)
    show "col_stateproof row = None \<longleftrightarrow> UnverifiedProofEndState (cd_proof cd) = cd_reinit cd"
      by (fact null')
    show "GetById w db' (cd_id cd) = Inr (Some cd')" by (fact get)
    show "col_stateproof row = None \<longrightarrow>
           cd_proof cd' = StateProofFromReinit (cd_reinit cd)
           \<and> data (initial_state (cd_proof cd')) = cd_reinit cd"
      by (fact fromreinit)
    show "cd_metadata cd' = cd_metadata cd" by (fact fields(1))
    show "cd_reinit cd' = cd_reinit cd" by (fact fields(2))
    show "GetLatestState cd' = GetLatestState cd" by (fact gl)
    show "disputeHeight cd' = disputeHeight cd" by (fact fields(3))
  qed
qed

text \<open>
  Stand-ins for the serialisation, for concrete inputs: the metadata of the two-participant
  example is the byte string \<^verbatim>\<open>meta 2\<close>, and the example proof is \<^verbatim>\<open>proof 1\<close>.
\<close>

definition example_proof :: StateProof where
  "example_proof =
     \<lparr>opt_initial_state = Some \<lparr>opt_data = Some ''state 0'', signatures = []\<rparr>,
      transitions = [\<lparr>opt_move = Some ''move 1'',
                       opt_new_state = Some \<lparr>opt_data = Some ''state 1'',
                                              signatures = [''sgn 0'']\<rparr>\<rparr>]\<rparr>"

definition example_wire :: wire where
  "example_wire =
     \<lparr>SerializeMetadata = (\<lambda>m. Some ''meta 2''),
      ParseMetadata = (\<lambda>b. if b = ''meta 2'' then Some two_participants else None),
      SerializeProof = (\<lambda>p. Some ''proof 1''),
      ParseProof = (\<lambda>b. if b = ''proof 1'' then Some example_proof else None)\<rparr>"

definition stored_row :: ChannelRow where
  "stored_row = \<lparr>col_metadata = ''meta 2'', col_reinit = ''state 0'', col_stateproof = None,
                  col_disputeHeight = Some 100\<rparr>"

definition loaded_handle :: ChannelData where
  "loaded_handle =
     \<lparr>cd_id = 5, initialised = True, cd_metadata = two_participants, cd_reinit = ''state 0'',
      cd_proof = StateProofFromReinit ''state 0'', disputeHeight = 100, dirty = False\<rparr>"

theorem read_only_handle_writes_nothing_witness:
  "GetById example_wire [(5, stored_row)] 5 = Inr (Some loaded_handle)
   \<and> calls [CallGetMetadata, CallGetLatestState, CallGetDisputeHeight] loaded_handle
       = Inr loaded_handle
   \<and> DestroyChannelData example_wire loaded_handle [(5, stored_row)] = Inr [(5, stored_row)]"
proof -
  have 1: "GetById example_wire [(5, stored_row)] 5 = Inr (Some loaded_handle)"
    by code_simp
  have 2: "\<forall>c \<in> set [CallGetMetadata, CallGetLatestState, CallGetDisputeHeight]. \<not> is_mutating c"
    by simp
  have 3: "calls [CallGetMetadata, CallGetLatestState, CallGetDisputeHeight] loaded_handle
       = Inr loaded_handle"
    by code_simp
  show ?thesis
    using read_only_handle_writes_nothing [OF 1 2 3] 1 3 by simp
qed

definition modified_handle :: ChannelData where
  "modified_handle =
     \<lparr>cd_id = 5, initialised = True, cd_metadata = two_participants, cd_reinit = ''state 0'',
      cd_proof = example_proof, disputeHeight = 100, dirty = True\<rparr>"

definition written_row :: ChannelRow where
  "written_row = \<lparr>col_metadata = ''meta 2'', col_reinit = ''state 0'',
                   col_stateproof = Some ''proof 1'', col_disputeHeight = Some 100\<rparr>"

theorem stored_row_round_trip_witness:
  "initialised modified_handle \<and> dirty modified_handle
   \<and> DestroyChannelData example_wire modified_handle [] = Inr [(5, written_row)]
   \<and> (\<exists>row cd'. SelectById [(5, written_row)] (cd_id modified_handle) = Some row
      \<and> (col_stateproof row = None
           \<longleftrightarrow> UnverifiedProofEndState (cd_proof modified_handle) = cd_reinit modified_handle)
      \<and> GetById example_wire [(5, written_row)] (cd_id modified_handle) = Inr (Some cd')
      \<and> (col_stateproof row = None \<longrightarrow>
           cd_proof cd' = StateProofFromReinit (cd_reinit modified_handle)
           \<and> data (initial_state (cd_proof cd')) = cd_reinit modified_handle)
      \<and> cd_metadata cd' = cd_metadata modified_handle
      \<and> cd_reinit cd' = cd_reinit modified_handle
      \<and> GetLatestState cd' = GetLatestState modified_handle
      \<and> disputeHeight cd' = disputeHeight modified_handle)"
proof -
  have 1: "initialised modified_handle" by (simp add: modified_handle_def)
  have 2: "dirty modified_handle" by (simp add: modified_handle_def)
  have 3: "DestroyChannelData example_wire modified_handle [] = Inr [(5, written_row)]"
    by code_simp
  have 4: "\<forall>b. SerializeMetadata example_wire (cd_metadata modified_handle) = Some b
      \<longrightarrow> ParseMetadata example_wire b = Some (cd_metadata modified_handle)"
    by (simp add: example_wire_def modified_handle_def)
  have 5: "\<forall>b. SerializeProof example_wire (cd_proof modified_handle) = Some b
      \<longrightarrow> ParseProof example_wire b = Some (cd_proof modified_handle)"
    by (simp add: example_wire_def modified_handle_def)
  show ?thesis
    using stored_row_round_trip [OF 1 2 3 4 5] 1 2 3 by simp
qed

section \<open>Messages as base64 (protoutils.tpp)\<close>

text \<open>
  \<^verbatim>\<open>EncodeBase64\<close> and \<^verbatim>\<open>DecodeBase64\<close> are declared in \<^verbatim>\<open>base64.hpp\<close> and implemented
  with a library; they are parameters of the model.  \<^verbatim>\<open>DecodeBase64\<close> returns \<open>None\<close> for
  \<^verbatim>\<open>false\<close>.
\<close>

record base64 =
  EncodeBase64 :: "bytes \<Rightarrow> bytes"
  DecodeBase64 :: "bytes \<Rightarrow> bytes option"

definition ProtoToBase64 :: "wire \<Rightarrow> base64 \<Rightarrow> StateProof \<Rightarrow> fatal + bytes" where
  "ProtoToBase64 w b msg =
     (case SerializeProof w msg of
        None \<Rightarrow> Inl CHECK_failed
      | Some serialised \<Rightarrow> Inr (EncodeBase64 b serialised))"

text \<open>\<open>None\<close> is \<^verbatim>\<open>false\<close>, and \<open>Some msg\<close> is \<^verbatim>\<open>true\<close> with the parsed message.\<close>

definition ProtoFromBase64 :: "wire \<Rightarrow> base64 \<Rightarrow> bytes \<Rightarrow> StateProof option" where
  "ProtoFromBase64 w b str =
     (case DecodeBase64 b str of
        None \<Rightarrow> None
      | Some bytes \<Rightarrow>
          (case ParseProof w bytes of None \<Rightarrow> None | Some msg \<Rightarrow> Some msg))"

text \<open>
  C8.  For a state proof \<open>p\<close> that the protocol-buffer library serialises and parses back
  to \<open>p\<close>, and a base64 implementation that decodes what it encoded, \<^verbatim>\<open>ProtoToBase64\<close>
  succeeds and \<^verbatim>\<open>ProtoFromBase64\<close> of its result succeeds with \<open>p\<close>.
\<close>

theorem proto_base64_round_trip:
  assumes "\<exists>bs. SerializeProof w p = Some bs \<and> ParseProof w bs = Some p"
    and "\<forall>bs. DecodeBase64 b (EncodeBase64 b bs) = Some bs"
  shows "\<exists>encoded. ProtoToBase64 w b p = Inr encoded \<and> ProtoFromBase64 w b encoded = Some p"
proof -
  from assms(1) obtain bs where s: "SerializeProof w p = Some bs" and r: "ParseProof w bs = Some p"
    by blast
  have "ProtoToBase64 w b p = Inr (EncodeBase64 b bs)" by (simp add: ProtoToBase64_def s)
  moreover have "ProtoFromBase64 w b (EncodeBase64 b bs) = Some p"
    using assms(2) r by (simp add: ProtoFromBase64_def)
  ultimately show ?thesis by blast
qed

subsection \<open>The standard base64 encoding\<close>

text \<open>
  Modelled from the spec: an implementation of \<^verbatim>\<open>EncodeBase64\<close> and \<^verbatim>\<open>DecodeBase64\<close> (the
  sources have their declarations only), as the base64 format with the standard alphabet and
  \<^verbatim>\<open>=\<close> padding, without line breaks.  It shows that the base64 hypothesis above can be met.
\<close>

definition alphabet :: "char list" where
  "alphabet = ''ABCDEFGHIJKLMNOPQRSTUVWXYZabcdefghijklmnopqrstuvwxyz0123456789+/''"

definition sextet_char :: "nat \<Rightarrow> char" where
  "sextet_char n = alphabet ! n"

definition char_sextet :: "char \<Rightarrow> nat option" where
  "char_sextet c = map_of (zip alphabet [0..<64]) c"

definition byte :: "char \<Rightarrow> nat" where
  "byte c = of_char c"

fun encode_groups :: "bytes \<Rightarrow> bytes" where
  "encode_groups (a # b # c # rest) =
     [sextet_char (byte a div 4),
      sextet_char ((byte a mod 4) * 16 + byte b div 16),
      sextet_char ((byte b mod 16) * 4 + byte c div 64),
      sextet_char (byte c mod 64)] @ encode_groups rest"
| "encode_groups [a, b] =
     [sextet_char (byte a div 4),
      sextet_char ((byte a mod 4) * 16 + byte b div 16),
      sextet_char ((byte b mod 16) * 4),
      CHR ''='']"
| "encode_groups [a] =
     [sextet_char (byte a div 4), sextet_char ((byte a mod 4) * 16), CHR ''='', CHR ''='']"
| "encode_groups [] = []"

definition decode_last :: "char \<Rightarrow> char \<Rightarrow> char \<Rightarrow> char \<Rightarrow> bytes option" where
  "decode_last w x y z =
     (case (char_sextet w, char_sextet x) of
        (Some W, Some X) \<Rightarrow>
          if y = CHR ''='' \<and> z = CHR ''='' then Some [char_of (W * 4 + X div 16)]
          else (case char_sextet y of
              None \<Rightarrow> None
            | Some Y \<Rightarrow>
                if z = CHR ''=''
                  then Some [char_of (W * 4 + X div 16), char_of ((X mod 16) * 16 + Y div 4)]
                else (case char_sextet z of
                    None \<Rightarrow> None
                  | Some Z \<Rightarrow>
                      Some [char_of (W * 4 + X div 16), char_of ((X mod 16) * 16 + Y div 4),
                            char_of ((Y mod 4) * 64 + Z)]))
      | _ \<Rightarrow> None)"

fun decode_groups :: "bytes \<Rightarrow> bytes option" where
  "decode_groups [] = Some []"
| "decode_groups [w, x, y, z] = decode_last w x y z"
| "decode_groups (w # x # y # z # rest) =
     (case (char_sextet w, char_sextet x, char_sextet y, char_sextet z) of
        (Some W, Some X, Some Y, Some Z) \<Rightarrow>
          (case decode_groups rest of
             None \<Rightarrow> None
           | Some bs \<Rightarrow>
               Some ([char_of (W * 4 + X div 16), char_of ((X mod 16) * 16 + Y div 4),
                      char_of ((Y mod 4) * 64 + Z)] @ bs))
      | _ \<Rightarrow> None)"
| "decode_groups cs = None"

definition standard_base64 :: base64 where
  "standard_base64 = \<lparr>EncodeBase64 = encode_groups, DecodeBase64 = decode_groups\<rparr>"

lemma alphabet_length: "length alphabet = 64"
  by (simp add: alphabet_def)

lemma alphabet_distinct: "distinct alphabet"
  by (simp add: alphabet_def)

lemma char_sextet_char:
  assumes "n < 64"
  shows "char_sextet (sextet_char n) = Some n"
proof -
  have "map_of (zip alphabet [0..<64]) (alphabet ! n) = Some ([0..<64] ! n)"
    using assms by (intro map_of_zip_nth) (simp_all add: alphabet_length alphabet_distinct)
  then show ?thesis using assms by (simp add: char_sextet_def sextet_char_def)
qed

lemma sextet_char_not_pad:
  assumes "n < 64"
  shows "sextet_char n \<noteq> CHR ''=''"
proof -
  have "sextet_char n \<in> set alphabet"
    using assms by (simp add: sextet_char_def alphabet_length)
  moreover have "CHR ''='' \<notin> set alphabet" by (simp add: alphabet_def)
  ultimately show ?thesis by auto
qed

lemma byte_less: "byte c < 256"
  by (simp add: byte_def)

lemma char_of_byte: "char_of (byte c) = c"
  by (simp add: byte_def)

lemma div_mod_of_sum: fixes r k m :: nat assumes "r < m" shows "(k * m + r) div m = k" and "(k * m + r) mod m = r"
  using assms by simp_all

lemma sextets_of_bytes:
  fixes A B C :: nat
  assumes "A < 256" and "B < 256" and "C < 256"
  shows "A div 4 < 64" and "(A mod 4) * 16 + B div 16 < 64"
    and "(B mod 16) * 4 + C div 64 < 64" and "C mod 64 < 64"
    and "(A mod 4) * 16 < 64" and "(B mod 16) * 4 < 64"
proof -
  have a: "A mod 4 < 4" "B mod 16 < 16" by simp_all
  have b: "B div 16 < 16" "C div 64 < 4" "A div 4 < 64" using assms by simp_all
  show "A div 4 < 64" by (fact b(3))
  show "(A mod 4) * 16 + B div 16 < 64" using a(1) b(1) by linarith
  show "(B mod 16) * 4 + C div 64 < 64" using a(2) b(2) by linarith
  show "C mod 64 < 64" by simp
  show "(A mod 4) * 16 < 64" using a(1) by linarith
  show "(B mod 16) * 4 < 64" using a(2) by linarith
qed

lemma bytes_of_sextets:
  fixes A B C :: nat
  assumes "A < 256" and "B < 256" and "C < 256"
  shows "(A div 4) * 4 + ((A mod 4) * 16 + B div 16) div 16 = A"
    and "(((A mod 4) * 16 + B div 16) mod 16) * 16 + ((B mod 16) * 4 + C div 64) div 4 = B"
    and "(((B mod 16) * 4 + C div 64) mod 4) * 64 + C mod 64 = C"
    and "(A div 4) * 4 + ((A mod 4) * 16) div 16 = A"
    and "(((A mod 4) * 16 + B div 16) mod 16) * 16 + ((B mod 16) * 4) div 4 = B"
proof -
  have b: "B div 16 < 16" "C div 64 < 4" using assms by simp_all
  have 1: "((A mod 4) * 16 + B div 16) div 16 = A mod 4" using b(1) by (rule div_mod_of_sum(1))
  have 2: "((A mod 4) * 16 + B div 16) mod 16 = B div 16" using b(1) by (rule div_mod_of_sum(2))
  have 3: "((B mod 16) * 4 + C div 64) div 4 = B mod 16" using b(2) by (rule div_mod_of_sum(1))
  have 4: "((B mod 16) * 4 + C div 64) mod 4 = C div 64" using b(2) by (rule div_mod_of_sum(2))
  show "(A div 4) * 4 + ((A mod 4) * 16 + B div 16) div 16 = A" unfolding 1 by simp
  show "(((A mod 4) * 16 + B div 16) mod 16) * 16 + ((B mod 16) * 4 + C div 64) div 4 = B"
    unfolding 2 3 by simp
  show "(((B mod 16) * 4 + C div 64) mod 4) * 64 + C mod 64 = C" unfolding 4 by simp
  show "(A div 4) * 4 + ((A mod 4) * 16) div 16 = A" by simp
  show "(((A mod 4) * 16 + B div 16) mod 16) * 16 + ((B mod 16) * 4) div 4 = B"
    unfolding 2 by simp
qed


lemma decode_last_three:
  "decode_last (sextet_char (byte a div 4))
     (sextet_char ((byte a mod 4) * 16 + byte b div 16))
     (sextet_char ((byte b mod 16) * 4 + byte c div 64))
     (sextet_char (byte c mod 64)) = Some [a, b, c]"
proof -
  note s = sextets_of_bytes [OF byte_less [of a] byte_less [of b] byte_less [of c]]
  note r = bytes_of_sextets [OF byte_less [of a] byte_less [of b] byte_less [of c]]
  note v = char_sextet_char [OF s(1)] char_sextet_char [OF s(2)] char_sextet_char [OF s(3)]
    char_sextet_char [OF s(4)]
  note np = sextet_char_not_pad [OF s(3)] sextet_char_not_pad [OF s(4)]
  show ?thesis
    by (simp only: decode_last_def v np r char_of_byte option.case prod.case if_False
          simp_thms)
qed

lemma decode_last_two:
  "decode_last (sextet_char (byte a div 4))
     (sextet_char ((byte a mod 4) * 16 + byte b div 16))
     (sextet_char ((byte b mod 16) * 4)) (CHR ''='') = Some [a, b]"
proof -
  note s = sextets_of_bytes [OF byte_less [of a] byte_less [of b] byte_less [of b]]
  note r = bytes_of_sextets [OF byte_less [of a] byte_less [of b] byte_less [of b]]
  note v = char_sextet_char [OF s(1)] char_sextet_char [OF s(2)] char_sextet_char [OF s(6)]
  note np = sextet_char_not_pad [OF s(6)]
  show ?thesis
    by (simp only: decode_last_def v np r char_of_byte option.case prod.case if_False if_True
          simp_thms)
qed

lemma decode_last_one:
  "decode_last (sextet_char (byte a div 4)) (sextet_char ((byte a mod 4) * 16))
     (CHR ''='') (CHR ''='') = Some [a]"
proof -
  note s = sextets_of_bytes [OF byte_less [of a] byte_less [of a] byte_less [of a]]
  note r = bytes_of_sextets [OF byte_less [of a] byte_less [of a] byte_less [of a]]
  note v = char_sextet_char [OF s(1)] char_sextet_char [OF s(5)]
  show ?thesis
    by (simp only: decode_last_def v r char_of_byte option.case prod.case if_True simp_thms)
qed

lemma encode_groups_empty: "encode_groups bs = [] \<longleftrightarrow> bs = []"
  by (induction bs rule: encode_groups.induct) simp_all

lemma decode_groups_more:
  "decode_groups (w # x # y # z # e # es) =
     (case (char_sextet w, char_sextet x, char_sextet y, char_sextet z) of
        (Some W, Some X, Some Y, Some Z) \<Rightarrow>
          (case decode_groups (e # es) of
             None \<Rightarrow> None
           | Some bs \<Rightarrow>
               Some ([char_of (W * 4 + X div 16), char_of ((X mod 16) * 16 + Y div 4),
                      char_of ((Y mod 4) * 64 + Z)] @ bs))
      | _ \<Rightarrow> None)"
  by simp

lemma decode_encode_groups: "decode_groups (encode_groups bs) = Some bs"
proof (induction bs rule: encode_groups.induct)
  case (1 a b c rest)
  note s = sextets_of_bytes [OF byte_less [of a] byte_less [of b] byte_less [of c]]
  note r = bytes_of_sextets [OF byte_less [of a] byte_less [of b] byte_less [of c]]
  note v = char_sextet_char [OF s(1)] char_sextet_char [OF s(2)] char_sextet_char [OF s(3)]
    char_sextet_char [OF s(4)]
  show ?case
  proof (cases "encode_groups rest")
    case Nil
    then have "rest = []" by (simp add: encode_groups_empty)
    then show ?thesis by (simp add: decode_last_three)
  next
    case (Cons e es)
    have "decode_groups (encode_groups (a # b # c # rest))
        = decode_groups (sextet_char (byte a div 4)
            # sextet_char ((byte a mod 4) * 16 + byte b div 16)
            # sextet_char ((byte b mod 16) * 4 + byte c div 64)
            # sextet_char (byte c mod 64) # e # es)"
      by (simp add: Cons)
    also have "\<dots> = (case decode_groups (e # es) of None \<Rightarrow> None
        | Some bs \<Rightarrow> Some ([a, b, c] @ bs))"
      by (simp only: decode_groups_more v r char_of_byte option.case prod.case)
    also have "\<dots> = Some (a # b # c # rest)"
      using 1 by (simp add: Cons)
    finally show ?thesis .
  qed
next
  case (2 a b)
  show ?case by (simp add: decode_last_two)
next
  case (3 a)
  show ?case by (simp add: decode_last_one)
next
  case 4
  show ?case by simp
qed

lemma standard_base64_round_trip:
  "DecodeBase64 standard_base64 (EncodeBase64 standard_base64 bs) = Some bs"
  by (simp add: standard_base64_def decode_encode_groups)

text \<open>
  The theorem at the example proof, with the standard base64 encoding.
\<close>

theorem proto_base64_round_trip_witness:
  "(\<exists>bs. SerializeProof example_wire example_proof = Some bs
          \<and> ParseProof example_wire bs = Some example_proof)
   \<and> ProtoToBase64 example_wire standard_base64 example_proof = Inr ''cHJvb2YgMQ==''
   \<and> ProtoFromBase64 example_wire standard_base64 ''cHJvb2YgMQ=='' = Some example_proof"
proof -
  have 1: "\<exists>bs. SerializeProof example_wire example_proof = Some bs
          \<and> ParseProof example_wire bs = Some example_proof"
    by (simp add: example_wire_def)
  have 2: "\<forall>bs. DecodeBase64 standard_base64 (EncodeBase64 standard_base64 bs) = Some bs"
    by (simp add: standard_base64_round_trip)
  have 3: "ProtoToBase64 example_wire standard_base64 example_proof = Inr ''cHJvb2YgMQ==''"
    by code_simp
  show ?thesis
    using proto_base64_round_trip [OF 1 2] 1 3 by simp
qed

section \<open>The on-chain arbiter of the ships game\<close>

text \<open>
  Modelled from the spec: \<^verbatim>\<open>ShipsLogic::UpdateState\<close> and its handlers (\<^verbatim>\<open>logic.cpp\<close> is not
  among the sources; \<^verbatim>\<open>logic.hpp\<close> declares them and \<^verbatim>\<open>logic_tests.cpp\<close> exercises them).
  The model follows the operation table of the arbiter in the specification, on top of the
  channel table of \<^verbatim>\<open>database.cpp\<close>.  Where a test of \<^verbatim>\<open>logic_tests.cpp\<close> pins the behaviour
  down, the model follows the test; this matters for a create move whose id is taken, for
  which \<^verbatim>\<open>CreateChannelTests.FailsForIdCollision\<close> expects the process to die with the
  message \<^verbatim>\<open>Already have channel with ID\<close>.
\<close>

datatype json =
    JNull
  | JBool bool
  | JInt int
  | JString string
  | JArray "json list"
  | JObject "(string \<times> json) list"

text \<open>An entry of the block's \<^verbatim>\<open>moves\<close> array.\<close>

record Move =
  mv_name :: string
  mv_txid :: uint256
  mv_mvid :: "uint256 option"
  mv_move :: json

text \<open>
  The collaborators of the arbiter: the serialisation of messages, base64, the parser of
  board states, the parser of hexadecimal ids, the verifier of state proofs (it yields the
  proven end state) and the function that derives the reinitialisation id of new metadata.
\<close>

record arbiter =
  arb_wire :: wire
  arb_base64 :: base64
  arb_codec :: codec
  FromHex :: "string \<Rightarrow> uint256 option"
  VerifyStateProof :: "uint256 \<Rightarrow> ChannelMetadata \<Rightarrow> bytes \<Rightarrow> StateProof \<Rightarrow> bytes option"
  UpdateMetadataReinit :: "uint256 \<Rightarrow> ChannelMetadata \<Rightarrow> bytes"

definition DISPUTE_BLOCKS :: uint32 where
  "DISPUTE_BLOCKS = 10"

definition CHANNEL_TIMEOUT_BLOCKS :: nat where
  "CHANNEL_TIMEOUT_BLOCKS = 12"

text \<open>
  The game state: the channel table, the table \<^verbatim>\<open>game_stats\<close> (name, won, lost), and the
  height at which each channel was created, which the timeout of unjoined channels needs.
\<close>

type_synonym stats = "(string \<times> (int \<times> int)) list"

record GameState =
  channels :: channels
  game_stats :: stats
  created :: "(uint256 \<times> nat) list"

definition won :: "stats \<Rightarrow> string \<Rightarrow> int" where
  "won s n = (case map_of s n of None \<Rightarrow> 0 | Some wl \<Rightarrow> fst wl)"

definition lost :: "stats \<Rightarrow> string \<Rightarrow> int" where
  "lost s n = (case map_of s n of None \<Rightarrow> 0 | Some wl \<Rightarrow> snd wl)"

definition add_stats :: "string \<Rightarrow> int \<Rightarrow> int \<Rightarrow> stats \<Rightarrow> stats" where
  "add_stats n w l s = (n, (won s n + w, lost s n + l)) # filter (\<lambda>row. fst row \<noteq> n) s"

text \<open>
  \<^verbatim>\<open>UpdateStats\<close>: the participant with index \<open>winner\<close> gets a win and the other one a loss;
  rows that do not exist yet are created.
\<close>

definition UpdateStats :: "stats \<Rightarrow> ChannelMetadata \<Rightarrow> nat \<Rightarrow> fatal + stats" where
  "UpdateStats s meta winner =
     CHECK (participants_size meta = 2 \<and> winner < 2)
      (bindF (at (participants meta) winner) (\<lambda>w.
       bindF (at (participants meta) (1 - winner)) (\<lambda>l.
         Inr (add_stats (name l) 0 1 (add_stats (name w) 1 0 s)))))"

subsection \<open>Payloads\<close>

definition create_payload :: "json \<Rightarrow> string option" where
  "create_payload obj =
     (case obj of
        JObject [(k, JString addr)] \<Rightarrow> if k = ''addr'' then Some addr else None
      | _ \<Rightarrow> None)"

definition json_member :: "(string \<times> json) list \<Rightarrow> string \<Rightarrow> json option" where
  "json_member members k = map_of members k"

definition id_member :: "arbiter \<Rightarrow> (string \<times> json) list \<Rightarrow> uint256 option" where
  "id_member env members =
     (case json_member members ''id'' of Some (JString hex) \<Rightarrow> FromHex env hex | _ \<Rightarrow> None)"

definition string_member :: "(string \<times> json) list \<Rightarrow> string \<Rightarrow> string option" where
  "string_member members k = (case json_member members k of Some (JString s) \<Rightarrow> Some s | _ \<Rightarrow> None)"

definition join_payload :: "arbiter \<Rightarrow> json \<Rightarrow> (uint256 \<times> string) option" where
  "join_payload env obj =
     (case obj of
        JObject members \<Rightarrow>
          if length members \<noteq> 2 then None
          else (case (id_member env members, string_member members ''addr'') of
                  (Some i, Some addr) \<Rightarrow> Some (i, addr)
                | _ \<Rightarrow> None)
      | _ \<Rightarrow> None)"

definition abort_payload :: "arbiter \<Rightarrow> json \<Rightarrow> uint256 option" where
  "abort_payload env obj =
     (case obj of
        JObject members \<Rightarrow> if length members \<noteq> 1 then None else id_member env members
      | _ \<Rightarrow> None)"

definition loss_payload :: "arbiter \<Rightarrow> json \<Rightarrow> (uint256 \<times> bytes) option" where
  "loss_payload env obj =
     (case obj of
        JObject members \<Rightarrow>
          if length members \<noteq> 2 then None
          else (case (id_member env members, string_member members ''r'') of
                  (Some i, Some r64) \<Rightarrow>
                    (case DecodeBase64 (arb_base64 env) r64 of
                       None \<Rightarrow> None
                     | Some r \<Rightarrow> Some (i, r))
                | _ \<Rightarrow> None)
      | _ \<Rightarrow> None)"

definition proof_payload :: "arbiter \<Rightarrow> json \<Rightarrow> (uint256 \<times> StateProof) option" where
  "proof_payload env obj =
     (case obj of
        JObject members \<Rightarrow>
          if length members \<noteq> 2 then None
          else (case (id_member env members, string_member members ''state'') of
                  (Some i, Some s64) \<Rightarrow>
                    (case ProtoFromBase64 (arb_wire env) (arb_base64 env) s64 of
                       None \<Rightarrow> None
                     | Some p \<Rightarrow> Some (i, p))
                | _ \<Rightarrow> None)
      | _ \<Rightarrow> None)"

subsection \<open>The six operations\<close>

definition store :: "arbiter \<Rightarrow> ChannelData \<Rightarrow> GameState \<Rightarrow> fatal + GameState" where
  "store env h st =
     bindF (DestroyChannelData (arb_wire env) h (channels st)) (\<lambda>db. Inr (st\<lparr>channels := db\<rparr>))"

definition channel_id :: "Move \<Rightarrow> uint256" where
  "channel_id mv = (case mv_mvid mv of Some i \<Rightarrow> i | None \<Rightarrow> mv_txid mv)"

definition HandleCreateChannel ::
  "arbiter \<Rightarrow> nat \<Rightarrow> json \<Rightarrow> Move \<Rightarrow> GameState \<Rightarrow> fatal + GameState" where
  "HandleCreateChannel env height obj mv st =
     (case create_payload obj of
        None \<Rightarrow> Inr st
      | Some addr \<Rightarrow>
          bindF (GetById (arb_wire env) (channels st) (channel_id mv)) (\<lambda>existing.
          CHECK (existing = None)
           (let p = \<lparr>name = mv_name mv, address = addr, participant_unknown = []\<rparr>;
                meta = empty_ChannelMetadata\<lparr>participants := [p]\<rparr>;
                meta' = meta\<lparr>reinit := UpdateMetadataReinit env (channel_id mv) meta\<rparr>
            in
            bindF (Reinitialise meta' [] (CreateNew (channel_id mv))) (\<lambda>h.
            bindF (store env h st) (\<lambda>st'.
              Inr (st'\<lparr>created := (channel_id mv, height) # created st'\<rparr>))))))"

definition HandleJoinChannel ::
  "arbiter \<Rightarrow> json \<Rightarrow> Move \<Rightarrow> GameState \<Rightarrow> fatal + GameState" where
  "HandleJoinChannel env obj mv st =
     (case join_payload env obj of
        None \<Rightarrow> Inr st
      | Some (i, addr) \<Rightarrow>
          bindF (GetById (arb_wire env) (channels st) i) (\<lambda>existing.
          case existing of
            None \<Rightarrow> Inr st
          | Some h \<Rightarrow>
              (case participants (cd_metadata h) of
                 [first] \<Rightarrow>
                   if name first = mv_name mv then Inr st
                   else
                     (let p = \<lparr>name = mv_name mv, address = addr, participant_unknown = []\<rparr>;
                          meta = (cd_metadata h)\<lparr>participants := [first, p]\<rparr>;
                          meta' = meta\<lparr>reinit := UpdateMetadataReinit env (channel_id mv) meta\<rparr>
                      in
                      case SerializeStateToString (arb_codec env) InitialBoardState of
                        None \<Rightarrow> Inl CHECK_failed
                      | Some s0 \<Rightarrow> bindF (Reinitialise meta' s0 h) (\<lambda>h'. store env h' st))
               | _ \<Rightarrow> Inr st)))"

definition HandleAbortChannel ::
  "arbiter \<Rightarrow> json \<Rightarrow> Move \<Rightarrow> GameState \<Rightarrow> fatal + GameState" where
  "HandleAbortChannel env obj mv st =
     (case abort_payload env obj of
        None \<Rightarrow> Inr st
      | Some i \<Rightarrow>
          bindF (GetById (arb_wire env) (channels st) i) (\<lambda>existing.
          case existing of
            None \<Rightarrow> Inr st
          | Some h \<Rightarrow>
              (case participants (cd_metadata h) of
                 [only] \<Rightarrow>
                   if name only \<noteq> mv_name mv then Inr st
                   else Inr (st\<lparr>channels := DeleteById i (channels st)\<rparr>)
               | _ \<Rightarrow> Inr st)))"

definition HandleDeclareLoss ::
  "arbiter \<Rightarrow> json \<Rightarrow> Move \<Rightarrow> GameState \<Rightarrow> fatal + GameState" where
  "HandleDeclareLoss env obj mv st =
     (case loss_payload env obj of
        None \<Rightarrow> Inr st
      | Some (i, r) \<Rightarrow>
          bindF (GetById (arb_wire env) (channels st) i) (\<lambda>existing.
          case existing of
            None \<Rightarrow> Inr st
          | Some h \<Rightarrow>
              (case participants (cd_metadata h) of
                 [p0, p1] \<Rightarrow>
                   if r \<noteq> reinit (cd_metadata h) then Inr st
                   else if name p0 = mv_name mv
                     then bindF (UpdateStats (game_stats st) (cd_metadata h) 1) (\<lambda>s.
                            Inr (st\<lparr>channels := DeleteById i (channels st), game_stats := s\<rparr>))
                   else if name p1 = mv_name mv
                     then bindF (UpdateStats (game_stats st) (cd_metadata h) 0) (\<lambda>s.
                            Inr (st\<lparr>channels := DeleteById i (channels st), game_stats := s\<rparr>))
                   else Inr st
               | _ \<Rightarrow> Inr st)))"

text \<open>
  The latest state of a stored channel with two participants parses; it is a fatal error if
  it does not.
\<close>

definition stored_state :: "arbiter \<Rightarrow> ChannelData \<Rightarrow> fatal + ShipsBoardState" where
  "stored_state env h =
     bindF (GetLatestState h) (\<lambda>latest.
     bindF (ParseState (arb_codec env) (cd_id h) (cd_metadata h) latest) (\<lambda>parsed.
       case parsed of None \<Rightarrow> Inl CHECK_failed | Some s \<Rightarrow> Inr s))"

text \<open>
  A dispute is filed when there is a player to move in the proven state and the proven
  state is newer than the state of an existing dispute; it stamps the block height.
\<close>

definition apply_dispute ::
  "arbiter \<Rightarrow> nat \<Rightarrow> ChannelData \<Rightarrow> StateProof \<Rightarrow> ShipsBoardState \<Rightarrow> ShipsBoardState
     \<Rightarrow> GameState \<Rightarrow> fatal + GameState" where
  "apply_dispute env height h proof old s st =
     bindF (TurnCount old) (\<lambda>oldCount.
     bindF (TurnCount s) (\<lambda>newCount.
     bindF (WhoseTurn s) (\<lambda>next.
       if next \<noteq> NO_TURN \<and> (disputeHeight h = 0 \<or> newCount > oldCount)
         then bindF (SetStateProof proof h) (\<lambda>h1.
              bindF (SetDisputeHeight (of_nat height) h1) (\<lambda>h2. store env h2 st))
       else Inr st)))"

text \<open>
  A resolution with a finished state updates the statistics and deletes the channel;
  otherwise it stores the proof and clears the dispute when the turn count advanced.
\<close>

definition apply_resolution ::
  "arbiter \<Rightarrow> ChannelData \<Rightarrow> StateProof \<Rightarrow> ShipsBoardState \<Rightarrow> ShipsBoardState
     \<Rightarrow> GameState \<Rightarrow> fatal + GameState" where
  "apply_resolution env h proof old s st =
     bindF (TurnCount old) (\<lambda>oldCount.
     bindF (TurnCount s) (\<lambda>newCount.
     bindF (WhoseTurn s) (\<lambda>next.
       case next of
         None \<Rightarrow>
           (case opt_winner (GetState s) of
              None \<Rightarrow> Inl CHECK_failed
            | Some winner \<Rightarrow>
                bindF (UpdateStats (game_stats st) (cd_metadata h) (unat winner)) (\<lambda>stats'.
                  Inr (st\<lparr>channels := DeleteById (cd_id h) (channels st),
                           game_stats := stats'\<rparr>)))
       | Some t \<Rightarrow>
           if newCount > oldCount
             then bindF (SetStateProof proof h) (\<lambda>h1. store env (h1\<lparr>disputeHeight := 0\<rparr>) st)
           else Inr st)))"

definition HandleDisputeResolution ::
  "arbiter \<Rightarrow> json \<Rightarrow> nat \<Rightarrow> bool \<Rightarrow> GameState \<Rightarrow> fatal + GameState" where
  "HandleDisputeResolution env obj height isDispute st =
     (case proof_payload env obj of
        None \<Rightarrow> Inr st
      | Some (i, proof) \<Rightarrow>
          bindF (GetById (arb_wire env) (channels st) i) (\<lambda>existing.
          case existing of
            None \<Rightarrow> Inr st
          | Some h \<Rightarrow>
              if participants_size (cd_metadata h) \<noteq> 2 then Inr st
              else
                (case VerifyStateProof env i (cd_metadata h) (cd_reinit h) proof of
                   None \<Rightarrow> Inr st
                 | Some proven \<Rightarrow>
                     bindF (ParseState (arb_codec env) i (cd_metadata h) proven) (\<lambda>parsed.
                     case parsed of
                       None \<Rightarrow> Inr st
                     | Some s \<Rightarrow>
                         bindF (stored_state env h) (\<lambda>old.
                           if isDispute then apply_dispute env height h proof old s st
                           else apply_resolution env h proof old s st)))))"

subsection \<open>Processing a block\<close>

text \<open>
  A move that is not an object or has more than one member is dropped; the member of a
  move with one member selects the operation.
\<close>

definition ProcessMove :: "arbiter \<Rightarrow> nat \<Rightarrow> GameState \<Rightarrow> Move \<Rightarrow> fatal + GameState" where
  "ProcessMove env height st mv =
     (case mv_move mv of
        JObject members \<Rightarrow>
          if length members > 1 then Inr st
          else (case members of
              [(k, obj)] \<Rightarrow>
                if k = ''c'' then HandleCreateChannel env height obj mv st
                else if k = ''j'' then HandleJoinChannel env obj mv st
                else if k = ''a'' then HandleAbortChannel env obj mv st
                else if k = ''l'' then HandleDeclareLoss env obj mv st
                else if k = ''d'' then HandleDisputeResolution env obj height True st
                else if k = ''r'' then HandleDisputeResolution env obj height False st
                else Inr st
            | _ \<Rightarrow> Inr st)
      | _ \<Rightarrow> Inr st)"

fun ProcessMoves :: "arbiter \<Rightarrow> nat \<Rightarrow> GameState \<Rightarrow> Move list \<Rightarrow> fatal + GameState" where
  "ProcessMoves env height st [] = Inr st"
| "ProcessMoves env height st (mv # mvs) =
     bindF (ProcessMove env height st mv) (\<lambda>st'. ProcessMoves env height st' mvs)"

text \<open>
  Dispute expiry: the channels whose dispute height is at most the block height minus
  \<^verbatim>\<open>DISPUTE_BLOCKS\<close> are closed, in the order of \<^verbatim>\<open>QueryForDisputeHeight\<close>.  The loser is the
  participant whose turn it is in the latest state of the channel.  The height and
  \<^verbatim>\<open>DISPUTE_BLOCKS\<close> are \<^verbatim>\<open>unsigned\<close> in \<^verbatim>\<open>logic.hpp\<close>, and so is the bound that the query takes:
  their difference is the difference of 32-bit unsigned integers, which below height 10 is
  \<open>2 ^ 32 + height - 10\<close>.
\<close>

definition close_dispute ::
  "arbiter \<Rightarrow> uint256 \<Rightarrow> ChannelRow \<Rightarrow> GameState \<Rightarrow> fatal + GameState" where
  "close_dispute env i row st =
     bindF (ChannelDataFromRow (arb_wire env) i row) (\<lambda>h.
     CHECK (participants_size (cd_metadata h) = 2)
      (bindF (stored_state env h) (\<lambda>s.
       bindF (WhoseTurn s) (\<lambda>next.
         case next of
           None \<Rightarrow> Inl CHECK_failed
         | Some loser \<Rightarrow>
             bindF (UpdateStats (game_stats st) (cd_metadata h) (nat (1 - loser))) (\<lambda>stats'.
               Inr (st\<lparr>channels := DeleteById i (channels st), game_stats := stats'\<rparr>))))))"

fun close_disputes :: "arbiter \<Rightarrow> channels \<Rightarrow> GameState \<Rightarrow> fatal + GameState" where
  "close_disputes env [] st = Inr st"
| "close_disputes env (kr # rows) st =
     bindF (close_dispute env (fst kr) (snd kr) st) (close_disputes env rows)"

definition ProcessExpiredDisputes :: "arbiter \<Rightarrow> uint32 \<Rightarrow> GameState \<Rightarrow> fatal + GameState" where
  "ProcessExpiredDisputes env height st =
     close_disputes env (QueryForDisputeHeight (height - DISPUTE_BLOCKS) (channels st)) st"

text \<open>
  Channel timeout: a channel created \<^verbatim>\<open>CHANNEL_TIMEOUT_BLOCKS\<close> or more blocks ago that still
  has a single participant is removed.
\<close>

definition timed_out :: "arbiter \<Rightarrow> nat \<Rightarrow> GameState \<Rightarrow> uint256 \<times> nat \<Rightarrow> fatal + bool" where
  "timed_out env height st c =
     (if int (snd c) > int height - int CHANNEL_TIMEOUT_BLOCKS then Inr False
      else bindF (GetById (arb_wire env) (channels st) (fst c)) (\<lambda>existing.
             case existing of
               None \<Rightarrow> Inr False
             | Some h \<Rightarrow> Inr (participants_size (cd_metadata h) = 1)))"

fun sweep :: "arbiter \<Rightarrow> nat \<Rightarrow> (uint256 \<times> nat) list \<Rightarrow> GameState \<Rightarrow> fatal + GameState" where
  "sweep env height [] st = Inr st"
| "sweep env height (c # cs) st =
     bindF (timed_out env height st c) (\<lambda>out.
       sweep env height cs
         (if out then st\<lparr>channels := DeleteById (fst c) (channels st)\<rparr> else st))"

definition TimeOutChannels :: "arbiter \<Rightarrow> nat \<Rightarrow> GameState \<Rightarrow> fatal + GameState" where
  "TimeOutChannels env height st = sweep env height (created st) st"

text \<open>
  A block: its moves in order, then the expiry of disputes, then the timeout of channels.
  The height is the number in the block data; \<^verbatim>\<open>ProcessExpiredDisputes\<close> takes it as the
  \<^verbatim>\<open>unsigned\<close> of its declaration.
\<close>

definition UpdateState :: "arbiter \<Rightarrow> nat \<Rightarrow> Move list \<Rightarrow> GameState \<Rightarrow> fatal + GameState" where
  "UpdateState env height moves st =
     bindF (ProcessMoves env height st moves) (\<lambda>st1.
     bindF (ProcessExpiredDisputes env (of_nat height) st1) (\<lambda>st2.
       TimeOutChannels env height st2))"

section \<open>Invalid moves\<close>

definition malformed_payload :: "arbiter \<Rightarrow> string \<Rightarrow> json \<Rightarrow> bool" where
  "malformed_payload env k obj =
     (if k = ''c'' then create_payload obj = None
      else if k = ''j'' then join_payload env obj = None
      else if k = ''a'' then abort_payload env obj = None
      else if k = ''l'' then loss_payload env obj = None
      else if k = ''d'' \<or> k = ''r'' then proof_payload env obj = None
      else False)"

definition invalid_move :: "arbiter \<Rightarrow> Move \<Rightarrow> bool" where
  "invalid_move env mv =
     (case mv_move mv of
        JObject members \<Rightarrow>
          length members > 1
          \<or> (case members of [(k, obj)] \<Rightarrow> malformed_payload env k obj | _ \<Rightarrow> False)
      | _ \<Rightarrow> True)"

lemma ProcessMoves_append:
  "ProcessMoves env h st (pre @ post)
     = bindF (ProcessMoves env h st pre) (\<lambda>st'. ProcessMoves env h st' post)"
  by (induction pre arbitrary: st) (simp_all add: bindF_def split: sum.splits)

lemma invalid_move_no_op:
  assumes "invalid_move env mv"
  shows "ProcessMove env h st mv = Inr st"
proof (cases "mv_move mv")
  case (JObject members)
  show ?thesis
  proof (cases "length members > 1")
    case True
    then show ?thesis by (simp add: ProcessMove_def JObject)
  next
    case False
    then consider "members = []" | k obj where "members = [(k, obj)]"
      by (cases members; cases "tl members") auto
    then show ?thesis
    proof cases
      case 1
      then show ?thesis by (simp add: ProcessMove_def JObject)
    next
      case 2
      then have "malformed_payload env k obj"
        using assms by (simp add: invalid_move_def JObject)
      then show ?thesis
        by (auto simp: ProcessMove_def JObject 2 malformed_payload_def
              HandleCreateChannel_def HandleJoinChannel_def HandleAbortChannel_def
              HandleDeclareLoss_def HandleDisputeResolution_def split: if_splits)
    qed
  qed
qed (simp_all add: ProcessMove_def)

text \<open>
  C7.  A move that is invalid (its data is not a JSON object, or has more than one member,
  or has a payload that is malformed for its operation) leaves the game state, and so the
  channel table, as it is.  The moves after it are processed as if it was not there, so the
  result of the whole block is that of the block without the invalid move.
\<close>

theorem invalid_move_dropped:
  assumes "invalid_move env mv"
  shows "ProcessMove env h st mv = Inr st
    \<and> ProcessMoves env h st (mv # rest) = ProcessMoves env h st rest
    \<and> UpdateState env h (pre @ mv # rest) st = UpdateState env h (pre @ rest) st"
proof -
  have 1: "ProcessMove env h st' mv = Inr st'" for st'
    using assms by (rule invalid_move_no_op)
  have 2: "ProcessMoves env h st' (mv # rest) = ProcessMoves env h st' rest" for st'
    by (simp add: 1 bindF_def)
  have "ProcessMoves env h st (pre @ mv # rest) = ProcessMoves env h st (pre @ rest)"
    by (simp only: ProcessMoves_append 2)
  then show ?thesis using 1 2 by (simp add: UpdateState_def)
qed

section \<open>A create move for an id that is taken\<close>

text \<open>
  C1 (as amended).  A create move with a well-formed payload whose channel id (the
  \<^verbatim>\<open>mvid\<close> if there is one, else the \<^verbatim>\<open>txid\<close>) is already in the channel table does not
  fail as a no-op: processing the move aborts on a failed check, and so does the processing
  of the block that contains it after moves that left the id in the table.
\<close>

theorem create_for_taken_id_aborts:
  assumes "mv_move mv = JObject [(''c'', obj)]"
    and "create_payload obj = Some addr"
    and "ProcessMoves env h st pre = Inr st1"
    and "SelectById (channels st1) (channel_id mv) \<noteq> None"
  shows "ProcessMove env h st1 mv = Inl CHECK_failed
    \<and> UpdateState env h (pre @ mv # rest) st = Inl CHECK_failed"
proof -
  from assms(4) obtain row where row: "SelectById (channels st1) (channel_id mv) = Some row"
    by blast
  have "GetById (arb_wire env) (channels st1) (channel_id mv) = Inl CHECK_failed
      \<or> (\<exists>h. GetById (arb_wire env) (channels st1) (channel_id mv) = Inr (Some h))"
    by (auto simp: GetById_def row ChannelDataFromRow_def bindF_def
          split: option.splits sum.splits)
  then have 1: "ProcessMove env h st1 mv = Inl CHECK_failed"
    using assms(1,2)
    by (auto simp: ProcessMove_def HandleCreateChannel_def bindF_def CHECK_def)
  have "ProcessMoves env h st (pre @ mv # rest) = Inl CHECK_failed"
    by (simp add: ProcessMoves_append assms(3) bindF_def 1)
  then show ?thesis using 1 by (simp add: UpdateState_def bindF_def)
qed

subsection \<open>Concrete inputs for the arbiter\<close>

text \<open>
  Stand-ins for the collaborators of the arbiter.  Ids are 64 hexadecimal digits; the
  metadata is serialised as its names and addresses followed by the reinitialisation id,
  and the parser knows the metadata of the example channels; a state proof without
  transitions whose initial state is the reinitialisation state is verified.
\<close>

definition hex_digit :: "char \<Rightarrow> nat option" where
  "hex_digit c =
     (let n = (of_char c :: nat) in
      if 48 \<le> n \<and> n \<le> 57 then Some (n - 48)
      else if 97 \<le> n \<and> n \<le> 102 then Some (n - 87)
      else None)"

fun hex_value :: "nat \<Rightarrow> string \<Rightarrow> nat option" where
  "hex_value acc [] = Some acc"
| "hex_value acc (c # cs) =
     (case hex_digit c of None \<Rightarrow> None | Some d \<Rightarrow> hex_value (16 * acc + d) cs)"

definition example_FromHex :: "string \<Rightarrow> uint256 option" where
  "example_FromHex s =
     (if length s \<noteq> 64 then None else map_option of_nat (hex_value 0 s))"

definition metadata_text :: "ChannelMetadata \<Rightarrow> bytes" where
  "metadata_text m =
     concat (map (\<lambda>p. name p @ '':'' @ address p @ '';'') (participants m)) @ ''|'' @ reinit m"

definition foo_metadata :: ChannelMetadata where
  "foo_metadata =
     \<lparr>participants = [\<lparr>name = ''foo'', address = ''address'', participant_unknown = []\<rparr>],
      reinit = ''r'', metadata_unknown = []\<rparr>"

definition named_metadata :: ChannelMetadata where
  "named_metadata =
     \<lparr>participants = [\<lparr>name = ''name 0'', address = ''addr 0'', participant_unknown = []\<rparr>,
                      \<lparr>name = ''name 1'', address = ''addr 1'', participant_unknown = []\<rparr>],
      reinit = [], metadata_unknown = []\<rparr>"

definition arbiter_wire :: wire where
  "arbiter_wire =
     \<lparr>SerializeMetadata = (\<lambda>m. Some (metadata_text m)),
      ParseMetadata = (\<lambda>b. if b = ''foo:address;|r'' then Some foo_metadata
                            else if b = ''name 0:addr 0;name 1:addr 1;|'' then Some named_metadata
                            else None),
      SerializeProof = (\<lambda>p. Some ''proof 1''),
      ParseProof = (\<lambda>b. if b = ''proof 1'' then Some example_proof else None)\<rparr>"

definition example_arbiter :: arbiter where
  "example_arbiter =
     \<lparr>arb_wire = arbiter_wire,
      arb_base64 = standard_base64,
      arb_codec = example_codec,
      FromHex = example_FromHex,
      VerifyStateProof = (\<lambda>i meta reinit_state p.
        if transitions p = [] \<and> data (initial_state p) = reinit_state
        then Some reinit_state else None),
      UpdateMetadataReinit = (\<lambda>i meta. replicate (length (participants meta)) (CHR ''r''))\<rparr>"

definition empty_game :: GameState where
  "empty_game = \<lparr>channels = [], game_stats = [], created = []\<rparr>"

definition create_move :: "string \<Rightarrow> uint256 \<Rightarrow> string \<Rightarrow> Move" where
  "create_move sender txid addr =
     \<lparr>mv_name = sender, mv_txid = txid, mv_mvid = None,
      mv_move = JObject [(''c'', JObject [(''addr'', JString addr)])]\<rparr>"

definition string_move :: "string \<Rightarrow> uint256 \<Rightarrow> Move" where
  "string_move sender txid =
     \<lparr>mv_name = sender, mv_txid = txid, mv_mvid = None, mv_move = JString ''foo''\<rparr>"

definition channel_row :: "bytes \<Rightarrow> ChannelRow" where
  "channel_row meta = \<lparr>col_metadata = meta, col_reinit = [], col_stateproof = None,
                        col_disputeHeight = None\<rparr>"

text \<open>
  The block of the test \<^verbatim>\<open>StateUpdateTests.InvalidMoveContinuesProcessing\<close>: a move that is
  a string, then a create.  One channel exists after the block.
\<close>

theorem invalid_move_dropped_witness:
  "invalid_move example_arbiter (string_move ''foo'' 1)
   \<and> ProcessMove example_arbiter 10 empty_game (string_move ''foo'' 1) = Inr empty_game
   \<and> UpdateState example_arbiter 10
        ([] @ string_move ''foo'' 1 # [create_move ''bar'' 2 ''my address'']) empty_game
      = UpdateState example_arbiter 10 ([] @ [create_move ''bar'' 2 ''my address'']) empty_game
   \<and> UpdateState example_arbiter 10
        [string_move ''foo'' 1, create_move ''bar'' 2 ''my address''] empty_game
      = Inr \<lparr>channels = [(2, channel_row ''bar:my address;|r'')], game_stats = [],
             created = [(2, 10)]\<rparr>"
proof -
  have 1: "invalid_move example_arbiter (string_move ''foo'' 1)"
    by (simp add: invalid_move_def string_move_def)
  have 2: "UpdateState example_arbiter 10
        [string_move ''foo'' 1, create_move ''bar'' 2 ''my address''] empty_game
      = Inr \<lparr>channels = [(2, channel_row ''bar:my address;|r'')], game_stats = [],
             created = [(2, 10)]\<rparr>"
    by code_simp
  show ?thesis
    using invalid_move_dropped [OF 1, of 10 empty_game "[create_move ''bar'' 2 ''my address'']"
        "[]"] 1 2
    by simp
qed

text \<open>
  The block of the test \<^verbatim>\<open>CreateChannelTests.FailsForIdCollision\<close>: two creates with the same
  transaction id.
\<close>

definition foo_game :: GameState where
  "foo_game = \<lparr>channels = [(1, channel_row ''foo:address;|r'')], game_stats = [],
                created = [(1, 10)]\<rparr>"

theorem create_for_taken_id_aborts_witness:
  "mv_move (create_move ''bar'' 1 ''address'')
     = JObject [(''c'', JObject [(''addr'', JString ''address'')])]
   \<and> create_payload (JObject [(''addr'', JString ''address'')]) = Some ''address''
   \<and> ProcessMoves example_arbiter 10 empty_game [create_move ''foo'' 1 ''address''] = Inr foo_game
   \<and> SelectById (channels foo_game) (channel_id (create_move ''bar'' 1 ''address''))
       = Some (channel_row ''foo:address;|r'')
   \<and> ProcessMove example_arbiter 10 foo_game (create_move ''bar'' 1 ''address'')
       = Inl CHECK_failed
   \<and> UpdateState example_arbiter 10
        ([create_move ''foo'' 1 ''address''] @ create_move ''bar'' 1 ''address'' # []) empty_game
       = Inl CHECK_failed"
proof -
  have 1: "mv_move (create_move ''bar'' 1 ''address'')
     = JObject [(''c'', JObject [(''addr'', JString ''address'')])]"
    by (simp add: create_move_def)
  have 2: "create_payload (JObject [(''addr'', JString ''address'')]) = Some ''address''"
    by (simp add: create_payload_def)
  have 3: "ProcessMoves example_arbiter 10 empty_game [create_move ''foo'' 1 ''address'']
      = Inr foo_game"
    by code_simp
  have 4: "SelectById (channels foo_game) (channel_id (create_move ''bar'' 1 ''address''))
       = Some (channel_row ''foo:address;|r'')"
    by code_simp
  have 5: "SelectById (channels foo_game) (channel_id (create_move ''bar'' 1 ''address''))
       \<noteq> None"
    using 4 by simp
  show ?thesis
    using create_for_taken_id_aborts [OF 1 2 3 5, of "[]"] 1 2 3 4 by simp
qed

text \<open>
  C1, counterexample: after the first create, the channel table holds the id; the second
  create does not return the state unchanged, and the block does not yield a state.
\<close>

theorem create_for_taken_id_counterexample:
  "GetById (arb_wire example_arbiter) (channels foo_game) 1
     = Inr (Some \<lparr>cd_id = 1, initialised = True, cd_metadata = foo_metadata, cd_reinit = [],
                  cd_proof = StateProofFromReinit [], disputeHeight = 0, dirty = False\<rparr>)
   \<and> ProcessMove example_arbiter 10 foo_game (create_move ''bar'' 1 ''address'') \<noteq> Inr foo_game
   \<and> UpdateState example_arbiter 10
        [create_move ''foo'' 1 ''address'', create_move ''bar'' 1 ''address''] empty_game
       = Inl CHECK_failed"
  by code_simp

section \<open>Expiry of disputes\<close>



text \<open>
  The participant whose turn is pending in the latest state of a stored channel, and the
  other participant, by name.
\<close>

definition pending_turn :: "arbiter \<Rightarrow> uint256 \<times> ChannelRow \<Rightarrow> (string \<times> string) option" where
  "pending_turn env kr =
     (case ChannelDataFromRow (arb_wire env) (fst kr) (snd kr) of
        Inl e \<Rightarrow> None
      | Inr h \<Rightarrow>
          (case participants (cd_metadata h) of
             [p0, p1] \<Rightarrow>
               (case stored_state env h of
                  Inl e \<Rightarrow> None
                | Inr s \<Rightarrow>
                    (case WhoseTurn s of
                       Inr (Some t) \<Rightarrow>
                         if t = 0 then Some (name p0, name p1) else Some (name p1, name p0)
                     | _ \<Rightarrow> None))
           | _ \<Rightarrow> None))"

definition credit :: "string \<Rightarrow> string \<Rightarrow> stats \<Rightarrow> stats" where
  "credit loser winner s = add_stats loser 0 1 (add_stats winner 1 0 s)"






lemma WhoseTurn_01:
  assumes "WhoseTurn s = Inr (Some t)"
  shows "t = 0 \<or> t = 1"
  using assms by (auto simp: WhoseTurn_def CHECK_def Let_def split: if_splits)

lemma UpdateStats_pair:
  assumes "participants meta = [p0, p1]"
  shows "UpdateStats s meta 1 = Inr (credit (name p0) (name p1) s)"
    and "UpdateStats s meta 0 = Inr (credit (name p1) (name p0) s)"
  using assms
  by (simp_all add: UpdateStats_def CHECK_def participants_size_def bindF_def at_def credit_def)


lemma close_dispute_defined:
  assumes "pending_turn env (i, row) = Some (l, w)"
  shows "close_dispute env i row st
      = Inr (st\<lparr>channels := DeleteById i (channels st), game_stats := credit l w (game_stats st)\<rparr>)"
proof -
  from assms obtain h where h: "ChannelDataFromRow (arb_wire env) i row = Inr h"
    by (auto simp: pending_turn_def split: sum.splits)
  from assms h obtain p0 p1 where ps: "participants (cd_metadata h) = [p0, p1]"
    by (auto simp: pending_turn_def split: list.splits)
  from assms h ps obtain s where s: "stored_state env h = Inr s"
    by (auto simp: pending_turn_def split: sum.splits)
  from assms h ps s obtain t where t: "WhoseTurn s = Inr (Some t)"
    by (auto simp: pending_turn_def split: sum.splits option.splits)
  have t01: "t = 0 \<or> t = 1" using t by (rule WhoseTurn_01)
  have two: "participants_size (cd_metadata h) = 2" by (simp add: participants_size_def ps)
  from t01 show ?thesis
  proof
    assume "t = 0"
    then show ?thesis
      using assms h ps s t two UpdateStats_pair(1) [OF ps]
      by (simp add: pending_turn_def close_dispute_def bindF_def CHECK_def)
  next
    assume "t = 1"
    then show ?thesis
      using assms h ps s t two UpdateStats_pair(2) [OF ps]
      by (simp add: pending_turn_def close_dispute_def bindF_def CHECK_def)
  qed
qed




lemma close_disputes_defined:
  assumes "\<forall>kr \<in> set rows. pending_turn env kr \<noteq> None"
  shows "\<exists>st'. close_disputes env rows st = Inr st'"
  using assms
proof (induction rows arbitrary: st)
  case Nil
  then show ?case by simp
next
  case (Cons kr rows)
  then obtain l w where "pending_turn env (fst kr, snd kr) = Some (l, w)" by auto
  from close_dispute_defined [OF this, of st] Cons show ?case
    by (simp add: bindF_def)
qed





subsection \<open>The table keeps one row per id\<close>
















text \<open>
  The scan returns when each channel it closes has two participants and a latest state
  with a player to move.
\<close>

lemma expired_disputes_defined:
  assumes "\<forall>kr \<in> set (QueryForDisputeHeight (h - DISPUTE_BLOCKS) (channels st)).
             pending_turn env kr \<noteq> None"
  shows "\<exists>st'. ProcessExpiredDisputes env h st = Inr st'"
  using assms by (simp add: ProcessExpiredDisputes_def close_disputes_defined)

text \<open>
  The test \<^verbatim>\<open>DisputeResolutionTests.ExpiringDisputes\<close>: a channel of \<^verbatim>\<open>name 0\<close> and \<^verbatim>\<open>name 1\<close>
  in the state \<^verbatim>\<open>turn: 0\<close>, with a dispute at the given height.  With the dispute at height
  100, the block at height 109 leaves the channel alone; the block at height 110 closes it,
  with a loss for \<^verbatim>\<open>name 0\<close> and a win for \<^verbatim>\<open>name 1\<close>.
\<close>

definition disputed_row :: "int \<Rightarrow> ChannelRow" where
  "disputed_row d =
     \<lparr>col_metadata = ''name 0:addr 0;name 1:addr 1;|'', col_reinit = ''turn: 0'',
      col_stateproof = None, col_disputeHeight = Some d\<rparr>"

definition disputed_at :: "int \<Rightarrow> GameState" where
  "disputed_at d =
     \<lparr>channels = [(9, disputed_row d)],
      game_stats = [(''name 0'', (0, 0)), (''name 1'', (0, 0))],
      created = []\<rparr>"


lemma dispute_not_yet_expired:
  "UpdateState example_arbiter 109 [] (disputed_at 100) = Inr (disputed_at 100)"
  by code_simp



end
